theory Spec2Isabelle
  imports Main
begin

section \<open>Strings\<close>

text \<open>
  A JavaScript string is modelled as a \<^typ>\<open>string\<close>, one \<^typ>\<open>char\<close> per code unit;
  code units above 255 are outside the model. \<open>String.prototype.trim\<close> removes white
  space and line terminators from both ends; of those, the code units that fit a
  \<^typ>\<open>char\<close> are TAB, LF, VT, FF, CR, SPACE and NBSP.
\<close>

definition isWhiteSpace :: "char \<Rightarrow> bool" where
  "isWhiteSpace c = (of_char c \<in> {9, 10, 11, 12, 13, 32, 160 :: nat})"

definition trim :: "string \<Rightarrow> string" where
  "trim s = rev (dropWhile isWhiteSpace (rev (dropWhile isWhiteSpace s)))"

text \<open>
  \<open>a || b\<close> on a possibly undefined string: the empty string and \<open>undefined\<close> are
  falsy and give \<open>b\<close>.
\<close>

definition strOr :: "string option \<Rightarrow> string \<Rightarrow> string" where
  "strOr a b = (case a of None \<Rightarrow> b | Some s \<Rightarrow> if s = [] then b else s)"

text \<open>\<open>Number.prototype.toString\<close> on a non-negative integer: its decimal digits.\<close>

fun toString :: "nat \<Rightarrow> string" where
  "toString n =
     (if n < 10 then [char_of (48 + n)]
      else toString (n div 10) @ [char_of (48 + n mod 10)])"

section \<open>The placeholder pattern\<close>

text \<open>
  \<open>extractVariables\<close> scans with \<^verbatim>\<open>/\{\{([^}:]+)(?::([^}]*))?\}\}/g\<close> and
  \<open>replaceVariables\<close> with the same pattern, its second group not captured.
  \<open>matchHere s\<close> is the match of the pattern anchored at the start of \<open>s\<close>: group 1,
  group 2 (\<open>None\<close> when the optional part did not take part) and the text after the
  match. Both character classes are negated classes, so the greedy choice is the only
  one that can succeed: the character after a longest run of \<open>[^}:]\<close> is \<open>}\<close> or \<open>:\<close>,
  and the one after a longest run of \<open>[^}]\<close> is \<open>}\<close>; backtracking to a shorter run
  leaves a character that neither \<open>:\<close> nor \<open>}}\<close> matches.
\<close>

definition nameChar :: "char \<Rightarrow> bool" where
  "nameChar c = (c \<noteq> CHR ''}'' \<and> c \<noteq> CHR '':'')"

definition defaultChar :: "char \<Rightarrow> bool" where
  "defaultChar c = (c \<noteq> CHR ''}'')"

fun closing :: "string \<Rightarrow> string option" where
  "closing (a # b # rest) = (if a = CHR ''}'' \<and> b = CHR ''}'' then Some rest else None)"
| "closing _ = None"

definition matchHere :: "string \<Rightarrow> (string \<times> string option \<times> string) option" where
  "matchHere s =
     (case s of
        a # b # r \<Rightarrow>
          if a = CHR ''{'' \<and> b = CHR ''{'' then
            let g1 = takeWhile nameChar r; r1 = dropWhile nameChar r in
            if g1 = [] then None
            else (case r1 of
                    [] \<Rightarrow> None
                  | c # r2 \<Rightarrow>
                      if c = CHR '':'' then
                        (case closing (dropWhile defaultChar r2) of
                           Some rest \<Rightarrow> Some (g1, Some (takeWhile defaultChar r2), rest)
                         | None \<Rightarrow> None)
                      else (case closing r1 of
                              Some rest \<Rightarrow> Some (g1, None, rest)
                            | None \<Rightarrow> None))
          else None
      | _ \<Rightarrow> None)"

text \<open>
  \<open>regex.exec\<close> from \<open>lastIndex\<close>: the first position at or after it where the pattern
  matches. The argument is the text from \<open>lastIndex\<close> on; the result is the text skipped
  before the match, the two groups, and the text after the match (the new
  \<open>lastIndex\<close>). \<open>None\<close> is JavaScript's \<open>null\<close>.
\<close>

fun regexExec :: "string \<Rightarrow> (string \<times> string \<times> string option \<times> string) option" where
  "regexExec [] = None"
| "regexExec (c # cs) =
     (case matchHere (c # cs) of
        Some (g1, g2, rest) \<Rightarrow> Some ([], g1, g2, rest)
      | None \<Rightarrow>
          (case regexExec cs of
             Some (pre, g1, g2, rest) \<Rightarrow> Some (c # pre, g1, g2, rest)
           | None \<Rightarrow> None))"

lemma closing_Some: "closing s = Some rest \<longleftrightarrow> s = CHR ''}'' # CHR ''}'' # rest"
  by (cases s rule: closing.cases) auto

lemma matchHere_sound:
  assumes "matchHere s = Some (g1, g2, rest)"
  shows "s = ''{{'' @ g1 @ (case g2 of None \<Rightarrow> [] | Some d \<Rightarrow> CHR '':'' # d) @ ''}}'' @ rest"
    and "g1 \<noteq> []" and "\<forall>c\<in>set g1. nameChar c"
    and "\<forall>d. g2 = Some d \<longrightarrow> (\<forall>c\<in>set d. defaultChar c)"
proof -
  from assms obtain r where s: "s = CHR ''{'' # CHR ''{'' # r"
    by (auto simp: matchHere_def split: list.splits if_splits)
  define r1 where "r1 = dropWhile nameChar r"
  define t where "t = takeWhile nameChar r"
  have r: "r = t @ r1"
    by (simp add: t_def r1_def)
  have tn: "\<forall>c\<in>set t. nameChar c"
    unfolding t_def by (auto dest: set_takeWhileD)
  from assms s have m: "t \<noteq> [] \<and>
      (case r1 of
         [] \<Rightarrow> None
       | c # r2 \<Rightarrow>
           if c = CHR '':'' then
             (case closing (dropWhile defaultChar r2) of
                Some rest \<Rightarrow> Some (t, Some (takeWhile defaultChar r2), rest)
              | None \<Rightarrow> None)
           else (case closing r1 of
                   Some rest \<Rightarrow> Some (t, None, rest)
                 | None \<Rightarrow> None)) = Some (g1, g2, rest)"
    unfolding matchHere_def t_def r1_def by (simp add: Let_def split: if_splits)
  then obtain c r2 where r1: "r1 = c # r2"
    by (cases r1) auto
  show "s = ''{{'' @ g1 @ (case g2 of None \<Rightarrow> [] | Some d \<Rightarrow> CHR '':'' # d) @ ''}}'' @ rest"
  proof (cases "c = CHR '':''")
    case True
    with m r1 have c: "closing (dropWhile defaultChar r2) = Some rest"
      and g: "g1 = t" "g2 = Some (takeWhile defaultChar r2)"
      by (auto split: option.splits)
    from c have "dropWhile defaultChar r2 = CHR ''}'' # CHR ''}'' # rest"
      by (simp add: closing_Some)
    then have "r2 = takeWhile defaultChar r2 @ CHR ''}'' # CHR ''}'' # rest"
      by (metis takeWhile_dropWhile_id)
    with s r r1 True g show ?thesis by simp
  next
    case False
    with m r1 have c: "closing r1 = Some rest" and g: "g1 = t" "g2 = None"
      by (auto split: option.splits)
    from c have "r1 = CHR ''}'' # CHR ''}'' # rest"
      by (simp add: closing_Some)
    with s r g show ?thesis by simp
  qed
  from m r1 show "g1 \<noteq> []"
    by (auto split: if_splits option.splits)
  from m r1 tn show "\<forall>c\<in>set g1. nameChar c"
    by (auto split: if_splits option.splits)
  from m r1 show "\<forall>d. g2 = Some d \<longrightarrow> (\<forall>c\<in>set d. defaultChar c)"
    by (auto split: if_splits option.splits dest: set_takeWhileD)
qed

lemma matchHere_shorter:
  assumes "matchHere s = Some (g1, g2, rest)"
  shows "length rest < length s"
proof -
  have "length s =
      length (''{{'' @ g1 @ (case g2 of None \<Rightarrow> [] | Some d \<Rightarrow> CHR '':'' # d) @ ''}}'' @ rest)"
    using matchHere_sound(1) [OF assms] by (rule arg_cong)
  then show ?thesis by simp
qed

lemma regexExec_shorter:
  "regexExec s = Some (pre, g1, g2, rest) \<Longrightarrow> length rest < length s"
proof (induction s arbitrary: pre)
  case Nil
  then show ?case by simp
next
  case (Cons c cs)
  show ?case
  proof (cases "matchHere (c # cs)")
    case None
    with Cons.prems obtain pre' where "regexExec cs = Some (pre', g1, g2, rest)"
      by (auto split: option.splits)
    from Cons.IH [OF this] show ?thesis by simp
  next
    case (Some m)
    with Cons.prems have "matchHere (c # cs) = Some (g1, g2, rest)"
      by (auto split: prod.splits)
    then show ?thesis by (rule matchHere_shorter)
  qed
qed

section \<open>The variable template engine (bubble/renderer/src/App.tsx)\<close>

record variable =
  name :: string
  defaultValue :: "string option"

text \<open>
  The \<open>while ((match = regex.exec(content)) !== null)\<close> loop of \<open>extractVariables\<close>:
  \<open>s\<close> is the content from \<open>lastIndex\<close> on, \<open>seen\<close> the \<open>Set\<close> of names, \<open>variables\<close>
  the array built so far. \<open>match[2]?.trim()\<close> is \<open>undefined\<close> when group 2 is.
\<close>

function extractLoop :: "string \<Rightarrow> string set \<Rightarrow> variable list \<Rightarrow> variable list" where
  "extractLoop s seen variables =
     (case regexExec s of
        None \<Rightarrow> variables
      | Some (pre, g1, g2, rest) \<Rightarrow>
          let nm = trim g1 in
          if nm \<notin> seen
          then extractLoop rest (insert nm seen)
                 (variables @ [\<lparr>name = nm, defaultValue = map_option trim g2\<rparr>])
          else extractLoop rest seen variables)"
  by pat_completeness auto
termination
  by (relation "measure (\<lambda>(s, seen, variables). length s)") (auto dest: regexExec_shorter)

declare extractLoop.simps [simp del]

definition extractVariables :: "string \<Rightarrow> variable list" where
  "extractVariables content = extractLoop content {} []"

subsection \<open>Plain objects with string properties\<close>

text \<open>
  \<open>values\<close>, \<open>initialValues\<close> and \<open>variableValues\<close> are plain objects (\<open>{}\<close>, or a copy
  made with the spread syntax) whose own properties are strings; such an object is
  modelled by the map of its own properties. A plain object inherits the members of
  \<open>Object.prototype\<close>: the read \<open>obj[k]\<close> of a name that is no own property gives the
  member of that name when there is one, and \<open>undefined\<close> otherwise. The members are
  functions, but for the accessor \<open>__proto__\<close>, whose read gives the prototype object
  itself. The assignment \<open>obj[k] = v\<close> stores an own property, but for the name
  \<open>__proto__\<close> on an object that has no own property of that name: there it calls the
  accessor's setter, which ignores a string. When the callback of \<open>replace\<close> returns
  a member, \<open>replace\<close> inserts its text: \<open>[object Object]\<close> for the prototype object
  and, in the bubble's engine, \<open>function f() { [native code] }\<close> for a built-in
  function named \<open>f\<close> (the member \<open>constructor\<close> is the function \<open>Object\<close>).
\<close>

definition objectPrototypeMembers :: "string list" where
  "objectPrototypeMembers =
     [''constructor'', ''__defineGetter__'', ''__defineSetter__'', ''hasOwnProperty'',
      ''__lookupGetter__'', ''__lookupSetter__'', ''isPrototypeOf'',
      ''propertyIsEnumerable'', ''toString'', ''valueOf'', ''__proto__'',
      ''toLocaleString'']"

datatype jsValue = Undefined | StringValue string | PrototypeMember string

definition getProperty :: "(string \<rightharpoonup> string) \<Rightarrow> string \<Rightarrow> jsValue" where
  "getProperty obj k =
     (case obj k of
        Some v \<Rightarrow> StringValue v
      | None \<Rightarrow> if k \<in> set objectPrototypeMembers then PrototypeMember k else Undefined)"

definition setProperty ::
  "(string \<rightharpoonup> string) \<Rightarrow> string \<Rightarrow> string \<Rightarrow> (string \<rightharpoonup> string)" where
  "setProperty obj k v = (if k = ''__proto__'' \<and> obj k = None then obj else obj(k \<mapsto> v))"

definition prototypeMemberText :: "string \<Rightarrow> string" where
  "prototypeMemberText m =
     (if m = ''__proto__'' then ''[object Object]''
      else ''function '' @ (if m = ''constructor'' then ''Object'' else m)
           @ ''() { [native code] }'')"

subsection \<open>Substitution\<close>

text \<open>
  \<open>content.replace(regex, fn)\<close> with a global pattern: every match, found left to right
  from the end of the previous one, is replaced by \<open>fn\<close> of its first group; the text
  between matches is kept. \<open>replacer values\<close> is the callback: \<open>??\<close> takes the
  placeholder only when the read \<open>values[trimmedName]\<close> is \<open>undefined\<close>.
\<close>

function replaceAll :: "string \<Rightarrow> (string \<Rightarrow> string) \<Rightarrow> string" where
  "replaceAll s fn =
     (case regexExec s of
        None \<Rightarrow> s
      | Some (pre, g1, g2, rest) \<Rightarrow> pre @ fn g1 @ replaceAll rest fn)"
  by pat_completeness auto
termination
  by (relation "measure (\<lambda>(s, fn). length s)") (auto dest: regexExec_shorter)

declare replaceAll.simps [simp del]

definition replacer :: "(string \<rightharpoonup> string) \<Rightarrow> string \<Rightarrow> string" where
  "replacer values g1 =
     (let trimmedName = trim g1 in
      case getProperty values trimmedName of
        StringValue v \<Rightarrow> v
      | PrototypeMember m \<Rightarrow> prototypeMemberText m
      | Undefined \<Rightarrow> ''{{'' @ trimmedName @ ''}}'')"

definition replaceVariables :: "string \<Rightarrow> (string \<rightharpoonup> string) \<Rightarrow> string" where
  "replaceVariables content values = replaceAll content (replacer values)"

subsection \<open>Placeholder occurrences\<close>

text \<open>
  The content cut at its placeholder occurrences: literal text and placeholders
  alternate, and a placeholder keeps the two groups as they stand in the content.
  \<open>sourceText\<close> is the text a segment stands for, and \<open>occurrences\<close> lists the
  placeholders left to right as (trimmed name, trimmed default).
\<close>

datatype segment = Literal string | Placeholder string "string option"

function segments :: "string \<Rightarrow> segment list" where
  "segments s =
     (case regexExec s of
        None \<Rightarrow> [Literal s]
      | Some (pre, g1, g2, rest) \<Rightarrow> Literal pre # Placeholder g1 g2 # segments rest)"
  by pat_completeness auto
termination
  by (relation "measure length") (auto dest: regexExec_shorter)

declare segments.simps [simp del]

fun sourceText :: "segment \<Rightarrow> string" where
  "sourceText (Literal t) = t"
| "sourceText (Placeholder g1 g2) =
     ''{{'' @ g1 @ (case g2 of None \<Rightarrow> [] | Some d \<Rightarrow> CHR '':'' # d) @ ''}}''"

fun occurrence :: "segment \<Rightarrow> (string \<times> string option) list" where
  "occurrence (Literal t) = []"
| "occurrence (Placeholder g1 g2) = [(trim g1, map_option trim g2)]"

definition occurrences :: "string \<Rightarrow> (string \<times> string option) list" where
  "occurrences content = concat (map occurrence (segments content))"

section \<open>Data model (bubble/renderer/src/api.ts)\<close>

text \<open>
  The interfaces \<open>PromptVersion\<close>, \<open>Prompt\<close> and \<open>Folder\<close>. The fields \<open>id\<close>,
  \<open>title\<close>, \<open>content\<close>, \<open>name\<close> and \<open>createdAt\<close> occur in more than one interface
  and carry the interface's name here. Timestamps are epoch milliseconds.
\<close>

record promptVersion =
  version_id :: string
  version_content :: string
  version_title :: string
  savedAt :: nat

record prompt =
  prompt_id :: string
  title :: string
  content :: string
  tags :: "string list"
  isFavorite :: bool
  isPinned :: bool
  folderId :: "string option"
  createdAt :: nat
  updatedAt :: nat
  versions :: "promptVersion list"

record folder =
  folder_id :: string
  folder_name :: string
  icon :: string
  color :: string
  folder_createdAt :: nat

datatype error = ApiError string nat | NetworkError | ClipboardError | DatabaseError

section \<open>The copy workflow of the bubble (bubble/renderer/src/App.tsx)\<close>

text \<open>
  The React state the workflow touches, and the texts handed to the platform clipboard
  (\<open>window.electronAPI.copyToClipboard\<close> or \<open>navigator.clipboard.writeText\<close>) in the
  order of the calls. \<open>writeText t\<close> tells whether the platform write of \<open>t\<close> resolves;
  when it rejects, the rest of the awaiting handler does not run and the handler's
  promise rejects. The timer that clears \<open>copiedId\<close> after 1.5 s is a later event and is
  not part of a handler's run.
\<close>

record modalState =
  isOpen :: bool
  modalPrompt :: "prompt option"

record appState =
  variableModal :: modalState
  variableValues :: "string \<rightharpoonup> string"
  copiedId :: "string option"
  clipboardWrites :: "string list"

definition App_copyToClipboard ::
  "(string \<Rightarrow> bool) \<Rightarrow> string \<Rightarrow> string \<Rightarrow> appState \<Rightarrow> error option \<times> appState" where
  "App_copyToClipboard writeText text promptId st =
     (let st1 = st\<lparr>clipboardWrites := clipboardWrites st @ [text]\<rparr> in
      if writeText text then (None, st1\<lparr>copiedId := Some promptId\<rparr>)
      else (Some ClipboardError, st1))"

text \<open>
  The body of the \<open>forEach\<close> that fills \<open>initialValues\<close>, the assignment
  \<open>initialValues[v.name] = v.defaultValue || ''\<close>.
\<close>

definition setInitialValue :: "(string \<rightharpoonup> string) \<Rightarrow> variable \<Rightarrow> (string \<rightharpoonup> string)" where
  "setInitialValue initialValues v =
     setProperty initialValues (name v) (strOr (defaultValue v) [])"

definition handleCopy ::
  "(string \<Rightarrow> bool) \<Rightarrow> prompt \<Rightarrow> appState \<Rightarrow> error option \<times> appState" where
  "handleCopy writeText prompt st =
     (let variables = extractVariables (content prompt) in
      if length variables > 0 then
        let initialValues = foldl setInitialValue Map.empty variables
        in (None, st\<lparr>variableValues := initialValues,
                      variableModal := \<lparr>isOpen = True, modalPrompt = Some prompt\<rparr>\<rparr>)
      else App_copyToClipboard writeText (content prompt) (prompt_id prompt) st)"

definition handleCopyWithVariables ::
  "(string \<Rightarrow> bool) \<Rightarrow> appState \<Rightarrow> error option \<times> appState" where
  "handleCopyWithVariables writeText st =
     (case modalPrompt (variableModal st) of
        None \<Rightarrow> (None, st)
      | Some p \<Rightarrow>
          let c = replaceVariables (content p) (variableValues st) in
          (case App_copyToClipboard writeText c (prompt_id p) st of
             (None, st') \<Rightarrow>
               (None, st'\<lparr>variableModal := \<lparr>isOpen = False, modalPrompt = None\<rparr>\<rparr>)
           | (Some e, st') \<Rightarrow> (Some e, st')))"

text \<open>
  The two other events of the dialog: its close button, and an edit of the input of the
  variable \<open>nm\<close>, which sets \<open>{...prev, [nm]: v}\<close>: a computed key of an object literal
  always defines an own property.
\<close>

definition closeVariableModal :: "appState \<Rightarrow> appState" where
  "closeVariableModal st = st\<lparr>variableModal := \<lparr>isOpen = False, modalPrompt = None\<rparr>\<rparr>"

definition changeVariableValue :: "string \<Rightarrow> string \<Rightarrow> appState \<Rightarrow> appState" where
  "changeVariableValue nm v st = st\<lparr>variableValues := (variableValues st)(nm \<mapsto> v)\<rparr>"

section \<open>The storage service (unnamed/part_003)\<close>

subsection \<open>The cache in localStorage\<close>

text \<open>
  What \<open>localStorage\<close> holds under a cache key, as \<open>JSON.parse\<close> sees it: no item (or the
  empty string, which \<open>!raw\<close> treats alike), a string that does not parse, or the array
  it parses to. A write stores \<open>JSON.stringify\<close> of an array, which parses back to that
  array. \<open>getItemThrows\<close> and \<open>setItemThrows\<close> say whether the store raises on a read or
  a write (unavailable storage, exceeded quota); the cache functions catch and log that.
\<close>

datatype 'a item = NoItem | Unparsable | Parsed 'a

record localStorage =
  promptsItem :: "prompt list item"
  foldersItem :: "folder list item"
  getItemThrows :: bool
  setItemThrows :: bool

definition CURRENT_VERSION :: nat where
  "CURRENT_VERSION = 2"

definition getCachedPrompts :: "localStorage \<Rightarrow> prompt list" where
  "getCachedPrompts ls =
     (if getItemThrows ls then []
      else case promptsItem ls of NoItem \<Rightarrow> [] | Unparsable \<Rightarrow> [] | Parsed ps \<Rightarrow> ps)"

definition setCachedPrompts :: "prompt list \<Rightarrow> localStorage \<Rightarrow> localStorage" where
  "setCachedPrompts ps ls = (if setItemThrows ls then ls else ls\<lparr>promptsItem := Parsed ps\<rparr>)"

definition getCachedFolders :: "localStorage \<Rightarrow> folder list" where
  "getCachedFolders ls =
     (if getItemThrows ls then []
      else case foldersItem ls of NoItem \<Rightarrow> [] | Unparsable \<Rightarrow> [] | Parsed fs \<Rightarrow> fs)"

definition setCachedFolders :: "folder list \<Rightarrow> localStorage \<Rightarrow> localStorage" where
  "setCachedFolders fs ls = (if setItemThrows ls then ls else ls\<lparr>foldersItem := Parsed fs\<rparr>)"

subsection \<open>The API client, as the storage service sees it\<close>

text \<open>
  The functions of \<open>apiService\<close> that the storage service awaits, each given by its
  outcome: \<open>Inr\<close> the parsed response, \<open>Inl\<close> the error thrown (a network error, or the
  \<open>ApiError\<close> that \<open>handleResponse\<close> throws on a status outside 2xx). A call of the
  service runs to its end here: nothing else touches the storage while it awaits the
  server.
\<close>

record api =
  fetchPrompts :: "error + prompt list"
  createPromptApi :: "prompt \<Rightarrow> error + prompt"
  updatePromptApi :: "string \<Rightarrow> prompt \<Rightarrow> error + prompt"
  deletePromptApi :: "string \<Rightarrow> error + unit"

text \<open>
  \<open>{...createDefaultPrompt(), ...p}\<close>: the fields of \<open>p\<close> override those of the default
  prompt. \<open>createDefaultPrompt\<close> is declared in types.ts, outside the sources at hand, so
  its result is a parameter.
\<close>

definition withDefaults :: "prompt \<Rightarrow> prompt \<Rightarrow> prompt" where
  "withDefaults d p =
     d\<lparr>prompt_id := prompt_id p, title := title p, content := content p, tags := tags p,
       isFavorite := isFavorite p, isPinned := isPinned p, folderId := folderId p,
       createdAt := createdAt p, updatedAt := updatedAt p, versions := versions p\<rparr>"

text \<open>\<open>Array.prototype.findIndex\<close>, with \<open>None\<close> for \<open>-1\<close>.\<close>

fun findIndex :: "('a \<Rightarrow> bool) \<Rightarrow> 'a list \<Rightarrow> nat option" where
  "findIndex P [] = None"
| "findIndex P (x # xs) =
     (if P x then Some 0 else map_option Suc (findIndex P xs))"

definition loadPromptsAsync ::
  "prompt \<Rightarrow> api \<Rightarrow> localStorage \<Rightarrow> (error + prompt list) \<times> localStorage" where
  "loadPromptsAsync createDefaultPrompt api ls =
     (case fetchPrompts api of
        Inr prompts \<Rightarrow>
          (Inr (map (withDefaults createDefaultPrompt) prompts), setCachedPrompts prompts ls)
      | Inl err \<Rightarrow>
          (Inr (map (withDefaults createDefaultPrompt) (getCachedPrompts ls)), ls))"

definition savePromptAsync ::
  "api \<Rightarrow> prompt \<Rightarrow> localStorage \<Rightarrow> (error + prompt) \<times> localStorage" where
  "savePromptAsync api prompt ls =
     (let existing = find (\<lambda>p. prompt_id p = prompt_id prompt) (getCachedPrompts ls);
          response =
            (case existing of
               Some _ \<Rightarrow> updatePromptApi api (prompt_id prompt) prompt
             | None \<Rightarrow> createPromptApi api prompt)
      in case response of
           Inl err \<Rightarrow> (Inl err, ls)
         | Inr saved \<Rightarrow>
             let cached = getCachedPrompts ls;
                 cached' =
                   (case findIndex (\<lambda>p. prompt_id p = prompt_id saved) cached of
                      Some index \<Rightarrow> cached[index := saved]
                    | None \<Rightarrow> cached @ [saved])
             in (Inr saved, setCachedPrompts cached' ls))"

definition deletePromptAsync ::
  "api \<Rightarrow> string \<Rightarrow> localStorage \<Rightarrow> (error + unit) \<times> localStorage" where
  "deletePromptAsync api ident ls =
     (case deletePromptApi api ident of
        Inl err \<Rightarrow> (Inl err, ls)
      | Inr _ \<Rightarrow>
          (Inr (),
           setCachedPrompts (filter (\<lambda>p. prompt_id p \<noteq> ident) (getCachedPrompts ls)) ls))"

subsection \<open>Export and snapshots\<close>

text \<open>
  \<open>exportData\<close> builds the envelope from its two arguments and returns its JSON text,
  \<open>JSON.stringify(data, null, 2)\<close>; as for the cache, the text is identified with the
  value it denotes. \<open>now\<close> is the value of \<open>Date.now()\<close>.
\<close>

record exportEnvelope =
  version :: nat
  exportedAt :: nat
  prompts :: "prompt list"
  folders :: "folder list"

definition exportData :: "nat \<Rightarrow> prompt list \<Rightarrow> folder list \<Rightarrow> exportEnvelope" where
  "exportData now ps fs =
     \<lparr>version = CURRENT_VERSION, exportedAt = now, prompts = ps, folders = fs\<rparr>"

text \<open>
  \<open>createPromptVersion\<close> reads the clock twice: \<open>now1\<close> for the snapshot's id and
  \<open>now2\<close> for \<open>savedAt\<close>. \<open>slice(0, 5)\<close> is \<open>take 5\<close>.
\<close>

definition createPromptVersion :: "nat \<Rightarrow> nat \<Rightarrow> prompt \<Rightarrow> prompt" where
  "createPromptVersion now1 now2 p =
     (let v = \<lparr>version_id = toString now1, version_content = content p,
                version_title = title p, savedAt = now2\<rparr>;
          vs = take 5 (v # versions p)
      in p\<lparr>versions := vs\<rparr>)"

section \<open>Connection status (unnamed/part_002 and bubble/renderer/src/api.ts)\<close>

text \<open>
  Both the web client's \<open>apiService\<close> module and the bubble's \<open>ApiClient\<close> class keep a
  status and an array of listeners. A listener is a function compared by identity, here
  a number; \<open>calls\<close> records every invocation of a listener with the status passed.
\<close>

datatype connectionStatus = Connected | Disconnected | Checking

record monitor =
  connectionStatus :: connectionStatus
  connectionListeners :: "nat list"
  calls :: "(nat \<times> connectionStatus) list"

definition apiService_onConnectionStatusChange :: "nat \<Rightarrow> monitor \<Rightarrow> monitor" where
  "apiService_onConnectionStatusChange listener m =
     m\<lparr>connectionListeners := connectionListeners m @ [listener]\<rparr>"

definition ApiClient_onConnectionStatusChange :: "nat \<Rightarrow> monitor \<Rightarrow> monitor" where
  "ApiClient_onConnectionStatusChange callback m =
     m\<lparr>connectionListeners := connectionListeners m @ [callback],
       calls := calls m @ [(callback, connectionStatus m)]\<rparr>"

text \<open>The function both return, which removes the listener.\<close>

definition unsubscribe :: "nat \<Rightarrow> monitor \<Rightarrow> monitor" where
  "unsubscribe listener m =
     m\<lparr>connectionListeners := filter (\<lambda>l. l \<noteq> listener) (connectionListeners m)\<rparr>"

text \<open>\<open>setConnectionStatus\<close> is the same in both.\<close>

definition setConnectionStatus :: "connectionStatus \<Rightarrow> monitor \<Rightarrow> monitor" where
  "setConnectionStatus status m =
     (if connectionStatus m \<noteq> status
      then m\<lparr>connectionStatus := status,
             calls := calls m @ map (\<lambda>l. (l, status)) (connectionListeners m)\<rparr>
      else m)"

section \<open>The server's create-prompt route (server/src/api.ts)\<close>

text \<open>
  The parsed JSON body of the request, read at the fields of a prompt: \<open>None\<close> is a
  missing field (or \<open>null\<close>). \<open>x || d\<close> takes \<open>d\<close> when \<open>x\<close> is missing or falsy: the empty
  string, \<open>false\<close>, \<open>0\<close>; an array is never falsy. \<open>db.createPrompt\<close> is declared in
  database.ts, outside the sources at hand: it is a parameter that returns the stored
  prompt or raises.
\<close>

record promptBody =
  body_id :: "string option"
  body_title :: "string option"
  body_content :: "string option"
  body_tags :: "string list option"
  body_isFavorite :: "bool option"
  body_isPinned :: "bool option"
  body_folderId :: "string option"
  body_createdAt :: "nat option"
  body_updatedAt :: "nat option"
  body_versions :: "promptVersion list option"

definition boolOr :: "bool option \<Rightarrow> bool \<Rightarrow> bool" where
  "boolOr a b = (case a of None \<Rightarrow> b | Some x \<Rightarrow> if x then x else b)"

definition numOr :: "nat option \<Rightarrow> nat \<Rightarrow> nat" where
  "numOr a b = (case a of None \<Rightarrow> b | Some n \<Rightarrow> if n = 0 then b else n)"

definition arrayOr :: "'a list option \<Rightarrow> 'a list \<Rightarrow> 'a list" where
  "arrayOr a b = (case a of None \<Rightarrow> b | Some xs \<Rightarrow> xs)"

definition strOrNull :: "string option \<Rightarrow> string option" where
  "strOrNull a = (case a of None \<Rightarrow> None | Some s \<Rightarrow> if s = [] then None else Some s)"

datatype payload = PromptJson prompt | ErrorJson string

definition newPrompt :: "nat \<Rightarrow> promptBody \<Rightarrow> prompt" where
  "newPrompt now body =
     \<lparr>prompt_id = strOr (body_id body) (toString now),
      title = strOr (body_title body) ''New Prompt'',
      content = strOr (body_content body) [],
      tags = arrayOr (body_tags body) [],
      isFavorite = boolOr (body_isFavorite body) False,
      isPinned = boolOr (body_isPinned body) False,
      folderId = strOrNull (body_folderId body),
      createdAt = numOr (body_createdAt body) now,
      updatedAt = numOr (body_updatedAt body) now,
      versions = arrayOr (body_versions body) []\<rparr>"

definition postPrompts ::
  "(prompt \<Rightarrow> error + prompt) \<Rightarrow> nat \<Rightarrow> promptBody \<Rightarrow> nat \<times> payload" where
  "postPrompts db_createPrompt now body =
     (case db_createPrompt (newPrompt now body) of
        Inr created \<Rightarrow> (201, PromptJson created)
      | Inl err \<Rightarrow> (500, ErrorJson ''Failed to create prompt''))"

section \<open>The clipboard utility (unnamed/part_000)\<close>

text \<open>
  The browser, as \<open>copyToClipboard\<close> sees it: \<open>asyncWriteText\<close> is \<open>None\<close> when
  \<open>navigator.clipboard\<close> or its \<open>writeText\<close> is missing, else it tells whether the
  awaited write of a text resolves; \<open>fallbackCopy\<close> is the run of the hidden text area up
  to \<open>document.execCommand('copy')\<close>, which returns a flag or raises. The result is the
  flag returned and the attempts made, in order.
\<close>

datatype execResult = Threw | Returned bool

datatype clipboardAttempt = AsyncWrite string | FallbackCopy string

record browser =
  asyncWriteText :: "(string \<Rightarrow> bool) option"
  fallbackCopy :: "string \<Rightarrow> execResult"

definition fallbackTier :: "browser \<Rightarrow> string \<Rightarrow> clipboardAttempt list \<Rightarrow> bool \<times> clipboardAttempt list" where
  "fallbackTier b text attempts =
     (case fallbackCopy b text of
        Returned successful \<Rightarrow> (successful, attempts @ [FallbackCopy text])
      | Threw \<Rightarrow> (False, attempts @ [FallbackCopy text]))"

definition copyToClipboard :: "browser \<Rightarrow> string \<Rightarrow> bool \<times> clipboardAttempt list" where
  "copyToClipboard b text =
     (if text = [] then (False, [])
      else case asyncWriteText b of
             Some writeText \<Rightarrow>
               if writeText text then (True, [AsyncWrite text])
               else fallbackTier b text [AsyncWrite text]
           | None \<Rightarrow> fallbackTier b text [])"

section \<open>Definitions for the statements\<close>

text \<open>
  The pattern, read without the matcher: \<open>s\<close> starts with a placeholder of groups \<open>g1\<close>
  and \<open>g2\<close>, followed by \<open>rest\<close>, when it is \<open>{{\<close>, the non-empty \<open>g1\<close> free of \<open>}\<close>
  and \<open>:\<close>, then either nothing (\<open>g2\<close> undefined) or \<open>:\<close> and a \<open>g2\<close> free of \<open>}\<close>,
  then \<open>}}\<close> and \<open>rest\<close>.
\<close>

definition placeholderAt :: "string \<Rightarrow> string \<Rightarrow> string option \<Rightarrow> string \<Rightarrow> bool" where
  "placeholderAt s g1 g2 rest \<longleftrightarrow>
     s = ''{{'' @ g1 @ (case g2 of None \<Rightarrow> [] | Some d \<Rightarrow> CHR '':'' # d) @ ''}}'' @ rest
     \<and> g1 \<noteq> [] \<and> CHR ''}'' \<notin> set g1 \<and> CHR '':'' \<notin> set g1
     \<and> (case g2 of None \<Rightarrow> True | Some d \<Rightarrow> CHR ''}'' \<notin> set d)"

text \<open>
  The placeholder occurrences of a content, as a global scan defines them:
  \<open>cutsAt s segs\<close> says that \<open>segs\<close> is \<open>s\<close> cut into literal text and placeholders, each
  placeholder being the leftmost one that starts at or after the end of the one
  before. Either no placeholder starts anywhere in \<open>s\<close>, which is then one literal; or
  \<open>s\<close> is a literal \<open>pre\<close> within which no placeholder starts, a placeholder, and the cut
  of the text after it.
\<close>

inductive cutsAt :: "string \<Rightarrow> segment list \<Rightarrow> bool" where
  cut_end:
    "(\<And>k g1 g2 rest. \<not> placeholderAt (drop k s) g1 g2 rest) \<Longrightarrow> cutsAt s [Literal s]"
| cut_placeholder:
    "placeholderAt m g1 g2 rest \<Longrightarrow>
     (\<And>k g1' g2' rest'. k < length pre \<Longrightarrow> \<not> placeholderAt (drop k (pre @ m)) g1' g2' rest') \<Longrightarrow>
     cutsAt rest segs \<Longrightarrow>
     cutsAt (pre @ m) (Literal pre # Placeholder g1 g2 # segs)"

text \<open>
  The entries that a left-to-right pass over a list of occurrences keeps: an occurrence
  whose name was seen before is dropped.
\<close>

fun firstOccurrences :: "(string \<times> string option) list \<Rightarrow> string set \<Rightarrow> variable list" where
  "firstOccurrences [] seen = []"
| "firstOccurrences ((n, d) # os) seen =
     (if n \<in> seen then firstOccurrences os seen
      else \<lparr>name = n, defaultValue = d\<rparr> # firstOccurrences os (insert n seen))"




text \<open>
  The snapshot that \<open>createPromptVersion\<close> takes of a prompt, and the prompts and
  states the examples below use.
\<close>

definition snapshotOf :: "nat \<Rightarrow> nat \<Rightarrow> prompt \<Rightarrow> promptVersion" where
  "snapshotOf now1 now2 p =
     \<lparr>version_id = toString now1, version_content = content p,
      version_title = title p, savedAt = now2\<rparr>"

definition exampleVersion :: "nat \<Rightarrow> promptVersion" where
  "exampleVersion n =
     \<lparr>version_id = toString n, version_content = ''body'', version_title = ''t'', savedAt = n\<rparr>"

definition examplePrompt :: prompt where
  "examplePrompt =
     \<lparr>prompt_id = ''p1'', title = ''Greeting'', content = ''Hi {{name:Bob}}'', tags = [],
      isFavorite = False, isPinned = False, folderId = None, createdAt = 1, updatedAt = 1,
      versions = []\<rparr>"

definition plainPrompt :: prompt where
  "plainPrompt = examplePrompt\<lparr>prompt_id := ''p2'', content := ''No placeholders here''\<rparr>"

text \<open>A prompt whose one variable is named \<open>__proto__\<close>.\<close>

definition protoPrompt :: prompt where
  "protoPrompt = examplePrompt\<lparr>prompt_id := ''p3'', content := ''{{__proto__}}''\<rparr>"

definition initialState :: appState where
  "initialState =
     \<lparr>variableModal = \<lparr>isOpen = False, modalPrompt = None\<rparr>, variableValues = Map.empty,
      copiedId = None, clipboardWrites = []\<rparr>"

text \<open>
  Insert if absent, at the end; replace if present, the first entry with the id.
\<close>

fun upsert :: "prompt \<Rightarrow> prompt list \<Rightarrow> prompt list" where
  "upsert saved [] = [saved]"
| "upsert saved (q # qs) =
     (if prompt_id q = prompt_id saved then saved # qs else q # upsert saved qs)"

text \<open>
  The request that \<open>savePromptAsync\<close> sends: an update when the cache has a prompt with
  the id, else a create.
\<close>

definition remoteSave :: "api \<Rightarrow> prompt \<Rightarrow> localStorage \<Rightarrow> error + prompt" where
  "remoteSave api p ls =
     (if \<exists>q \<in> set (getCachedPrompts ls). prompt_id q = prompt_id p
      then updatePromptApi api (prompt_id p) p
      else createPromptApi api p)"

text \<open>
  A store whose writes raise, a store that holds one prompt, a server that answers
  every request, and an empty request body.
\<close>

definition fullStorage :: localStorage where
  "fullStorage =
     \<lparr>promptsItem = Parsed [], foldersItem = NoItem, getItemThrows = False,
      setItemThrows = True\<rparr>"

definition cachedStorage :: localStorage where
  "cachedStorage =
     \<lparr>promptsItem = Parsed [examplePrompt], foldersItem = NoItem, getItemThrows = False,
      setItemThrows = False\<rparr>"

definition serving :: "prompt list \<Rightarrow> api" where
  "serving ps =
     \<lparr>fetchPrompts = Inr ps, createPromptApi = (\<lambda>p. Inr p),
      updatePromptApi = (\<lambda>i p. Inr p), deletePromptApi = (\<lambda>i. Inr ())\<rparr>"

definition unreachable :: api where
  "unreachable =
     \<lparr>fetchPrompts = Inl NetworkError, createPromptApi = (\<lambda>p. Inl NetworkError),
      updatePromptApi = (\<lambda>i p. Inl NetworkError), deletePromptApi = (\<lambda>i. Inl NetworkError)\<rparr>"

text \<open>
  Modelled from the spec: \<open>db.createPrompt\<close> of database.ts, which is not among the
  sources. The spec has the storage layer enforce the uniqueness of ids, so creating a
  prompt whose id is taken raises; any other prompt is stored and returned.
\<close>

definition uniqueStore :: "prompt list \<Rightarrow> prompt \<Rightarrow> error + prompt" where
  "uniqueStore rows p =
     (if prompt_id p \<in> prompt_id ` set rows then Inl DatabaseError else Inr p)"

definition emptyBody :: promptBody where
  "emptyBody =
     \<lparr>body_id = None, body_title = None, body_content = None, body_tags = None,
      body_isFavorite = None, body_isPinned = None, body_folderId = None,
      body_createdAt = None, body_updatedAt = None, body_versions = None\<rparr>"

text \<open>The module state of \<open>apiService\<close> and of a new \<open>ApiClient\<close>.\<close>

definition freshMonitor :: monitor where
  "freshMonitor = \<lparr>connectionStatus = Checking, connectionListeners = [], calls = []\<rparr>"

section \<open>Trimming\<close>

text \<open>
  \<open>trim\<close> takes white space off both ends and nothing else: what is left neither
  starts nor ends with white space.
\<close>

lemma trim_decomposition:
  "\<exists>l r. s = l @ trim s @ r \<and> (\<forall>c\<in>set l. isWhiteSpace c) \<and> (\<forall>c\<in>set r. isWhiteSpace c)"
proof -
  define d where "d = dropWhile isWhiteSpace s"
  define e where "e = dropWhile isWhiteSpace (rev d)"
  have a: "s = takeWhile isWhiteSpace s @ d"
    by (simp add: d_def)
  have t: "trim s = rev e"
    by (simp add: trim_def d_def e_def)
  have "rev d = takeWhile isWhiteSpace (rev d) @ e"
    by (simp add: e_def)
  then have "rev (rev d) = rev (takeWhile isWhiteSpace (rev d) @ e)"
    by (rule arg_cong)
  then have b: "d = trim s @ rev (takeWhile isWhiteSpace (rev d))"
    by (simp add: t)
  have "s = takeWhile isWhiteSpace s @ trim s @ rev (takeWhile isWhiteSpace (rev d))"
    using a b by simp
  moreover have "\<forall>c\<in>set (takeWhile isWhiteSpace s). isWhiteSpace c"
    by (auto dest: set_takeWhileD)
  moreover have "\<forall>c\<in>set (rev (takeWhile isWhiteSpace (rev d))). isWhiteSpace c"
    by (auto dest: set_takeWhileD)
  ultimately show ?thesis by blast
qed

lemma trim_ends:
  assumes "trim s \<noteq> []"
  shows "\<not> isWhiteSpace (hd (trim s)) \<and> \<not> isWhiteSpace (last (trim s))"
proof -
  define d where "d = dropWhile isWhiteSpace s"
  define e where "e = dropWhile isWhiteSpace (rev d)"
  have t: "trim s = rev e"
    by (simp add: trim_def d_def e_def)
  with assms have e: "e \<noteq> []" by simp
  then have l: "\<not> isWhiteSpace (hd e)"
    unfolding e_def by (rule hd_dropWhile)
  from e have "last (trim s) = hd e"
    by (simp add: t last_rev)
  with l have 1: "\<not> isWhiteSpace (last (trim s))" by simp
  from e have dn: "d \<noteq> []"
    by (auto simp: e_def)
  then have hd: "\<not> isWhiteSpace (hd d)"
    unfolding d_def by (rule hd_dropWhile)
  have "rev d = takeWhile isWhiteSpace (rev d) @ e"
    by (simp add: e_def)
  then have "rev (rev d) = rev (takeWhile isWhiteSpace (rev d) @ e)"
    by (rule arg_cong)
  then have "d = rev e @ rev (takeWhile isWhiteSpace (rev d))"
    by simp
  with e have "hd d = hd (rev e)"
    by (metis hd_append2 rev_is_Nil_conv)
  with hd t have 2: "\<not> isWhiteSpace (hd (trim s))" by simp
  from 1 2 show ?thesis by blast
qed

lemma trim_strips:
  "(\<exists>l r. s = l @ trim s @ r \<and> (\<forall>c\<in>set l. isWhiteSpace c) \<and> (\<forall>c\<in>set r. isWhiteSpace c))
   \<and> (trim s \<noteq> [] \<longrightarrow> \<not> isWhiteSpace (hd (trim s)) \<and> \<not> isWhiteSpace (last (trim s)))"
  using trim_decomposition [of s] trim_ends [of s] by blast

section \<open>The placeholder pattern as a set of strings\<close>

text \<open>
  The pattern read as a set of strings: \<open>matchHere\<close> succeeds exactly on \<open>{{\<close>, a
  non-empty run of characters other than \<open>}\<close> and \<open>:\<close>, optionally \<open>:\<close> and a run of
  characters other than \<open>}\<close>, then \<open>}}\<close>, and the groups of such a string are unique.
  \<open>regexExec\<close> finds the leftmost position with a match, and none when there is none.
\<close>

lemma matchHere_complete:
  assumes "g1 \<noteq> []" and "\<forall>c\<in>set g1. nameChar c"
    and "\<forall>d. g2 = Some d \<longrightarrow> (\<forall>c\<in>set d. defaultChar c)"
  shows "matchHere (''{{'' @ g1 @ (case g2 of None \<Rightarrow> [] | Some d \<Rightarrow> CHR '':'' # d) @ ''}}'' @ rest)
         = Some (g1, g2, rest)"
proof (cases g2)
  case None
  have t: "takeWhile nameChar (g1 @ ''}}'' @ rest) = g1"
    using assms(2) by (simp add: takeWhile_append2 nameChar_def)
  have d: "dropWhile nameChar (g1 @ ''}}'' @ rest) = ''}}'' @ rest"
    using assms(2) by (simp add: dropWhile_append2 nameChar_def)
  from None assms(1) show ?thesis
    unfolding matchHere_def using t d by (simp add: Let_def)
next
  case (Some dv)
  with assms(3) have dc: "\<forall>c\<in>set dv. defaultChar c" by simp
  have t: "takeWhile nameChar (g1 @ CHR '':'' # dv @ ''}}'' @ rest) = g1"
    using assms(2) by (simp add: takeWhile_append2 nameChar_def)
  have d: "dropWhile nameChar (g1 @ CHR '':'' # dv @ ''}}'' @ rest) = CHR '':'' # dv @ ''}}'' @ rest"
    using assms(2) by (simp add: dropWhile_append2 nameChar_def)
  have t2: "takeWhile defaultChar (dv @ ''}}'' @ rest) = dv"
    using dc by (simp add: takeWhile_append2 defaultChar_def)
  have d2: "dropWhile defaultChar (dv @ ''}}'' @ rest) = ''}}'' @ rest"
    using dc by (simp add: dropWhile_append2 defaultChar_def)
  from Some assms(1) show ?thesis
    unfolding matchHere_def using t d t2 d2 by (simp add: Let_def)
qed

lemma regexExec_leftmost:
  "regexExec s = Some (pre, g1, g2, rest) \<Longrightarrow>
   matchHere (drop (length pre) s) = Some (g1, g2, rest)
   \<and> (\<forall>k < length pre. matchHere (drop k s) = None)"
proof (induction s arbitrary: pre)
  case Nil
  then show ?case by simp
next
  case (Cons c cs)
  show ?case
  proof (cases "matchHere (c # cs)")
    case None
    with Cons.prems obtain pre' where p: "regexExec cs = Some (pre', g1, g2, rest)"
      and pre: "pre = c # pre'"
      by (auto split: option.splits)
    from Cons.IH [OF p] have m: "matchHere (drop (length pre') cs) = Some (g1, g2, rest)"
      and n: "\<forall>k < length pre'. matchHere (drop k cs) = None"
      by blast+
    have "\<forall>k < length pre. matchHere (drop k (c # cs)) = None"
    proof (intro allI impI)
      fix k assume k: "k < length pre"
      show "matchHere (drop k (c # cs)) = None"
      proof (cases k)
        case 0
        with None show ?thesis by simp
      next
        case (Suc j)
        with k pre n show ?thesis by simp
      qed
    qed
    with m pre show ?thesis by simp
  next
    case (Some m)
    with Cons.prems have "matchHere (c # cs) = Some (g1, g2, rest)" and "pre = []"
      by (auto split: prod.splits)
    then show ?thesis by simp
  qed
qed

lemma regexExec_None_iff:
  "regexExec s = None \<longleftrightarrow> (\<forall>k \<le> length s. matchHere (drop k s) = None)"
proof (induction s)
  case Nil
  then show ?case by (simp add: matchHere_def)
next
  case (Cons c cs)
  have e: "(\<forall>k \<le> length (c # cs). matchHere (drop k (c # cs)) = None)
        \<longleftrightarrow> matchHere (c # cs) = None \<and> (\<forall>k \<le> length cs. matchHere (drop k cs) = None)"
  proof
    assume a: "\<forall>k \<le> length (c # cs). matchHere (drop k (c # cs)) = None"
    from a have "matchHere (drop 0 (c # cs)) = None" by blast
    moreover have "\<forall>k \<le> length cs. matchHere (drop k cs) = None"
    proof (intro allI impI)
      fix k assume "k \<le> length cs"
      then have "Suc k \<le> length (c # cs)" by simp
      with a have "matchHere (drop (Suc k) (c # cs)) = None" by blast
      then show "matchHere (drop k cs) = None" by simp
    qed
    ultimately show "matchHere (c # cs) = None \<and> (\<forall>k \<le> length cs. matchHere (drop k cs) = None)"
      by simp
  next
    assume a: "matchHere (c # cs) = None \<and> (\<forall>k \<le> length cs. matchHere (drop k cs) = None)"
    show "\<forall>k \<le> length (c # cs). matchHere (drop k (c # cs)) = None"
    proof (intro allI impI)
      fix k assume k: "k \<le> length (c # cs)"
      show "matchHere (drop k (c # cs)) = None"
      proof (cases k)
        case 0
        with a show ?thesis by simp
      next
        case (Suc j)
        with k a show ?thesis by simp
      qed
    qed
  qed
  show ?case
    by (simp only: e) (auto simp: Cons.IH [symmetric] split: option.splits)
qed

section \<open>The template engine: extraction\<close>

lemma placeholderAt_iff_matchHere:
  "placeholderAt s g1 g2 rest \<longleftrightarrow> matchHere s = Some (g1, g2, rest)"
proof
  assume p: "placeholderAt s g1 g2 rest"
  then have s: "s = ''{{'' @ g1 @ (case g2 of None \<Rightarrow> [] | Some d \<Rightarrow> CHR '':'' # d) @ ''}}'' @ rest"
    and n: "g1 \<noteq> []" and c: "\<forall>c\<in>set g1. nameChar c"
    and d: "\<forall>d. g2 = Some d \<longrightarrow> (\<forall>c\<in>set d. defaultChar c)"
    by (auto simp: placeholderAt_def nameChar_def defaultChar_def)
  from matchHere_complete [OF n c d, of rest] s show "matchHere s = Some (g1, g2, rest)"
    by simp
next
  assume m: "matchHere s = Some (g1, g2, rest)"
  from matchHere_sound [OF m] show "placeholderAt s g1 g2 rest"
    by (auto simp: placeholderAt_def nameChar_def defaultChar_def split: option.splits)
qed

lemma segments_None: "regexExec s = None \<Longrightarrow> segments s = [Literal s]"
  by (subst segments.simps) simp

lemma segments_Some:
  "regexExec s = Some (pre, g1, g2, rest) \<Longrightarrow>
   segments s = Literal pre # Placeholder g1 g2 # segments rest"
  by (subst segments.simps) simp

lemma occurrences_None: "regexExec s = None \<Longrightarrow> occurrences s = []"
  by (simp add: occurrences_def segments_None)

lemma occurrences_Some:
  "regexExec s = Some (pre, g1, g2, rest) \<Longrightarrow>
   occurrences s = (trim g1, map_option trim g2) # occurrences rest"
  by (simp add: occurrences_def segments_Some)

lemma remdups_snoc: "remdups (xs @ [x]) = filter (\<lambda>y. y \<noteq> x) (remdups xs) @ [x]"
  by (induction xs) auto

lemma extractLoop_firstOccurrences:
  "extractLoop s seen variables = variables @ firstOccurrences (occurrences s) seen"
proof (induction s seen variables rule: extractLoop.induct)
  case (1 s seen variables)
  show ?case
  proof (cases "regexExec s")
    case None
    then show ?thesis
      by (subst extractLoop.simps) (simp add: occurrences_None)
  next
    case (Some m)
    then obtain pre g1 g2 rest where m: "regexExec s = Some (pre, g1, g2, rest)"
      by (cases m) auto
    show ?thesis
    proof (cases "trim g1 \<in> seen")
      case True
      with m "1.IH"(2) [OF m] show ?thesis
        by (subst extractLoop.simps) (simp add: occurrences_Some Let_def)
    next
      case False
      with m "1.IH"(1) [OF m] show ?thesis
        by (subst extractLoop.simps) (simp add: occurrences_Some Let_def)
    qed
  qed
qed

lemma firstOccurrences_names:
  "map name (firstOccurrences os seen) = rev (remdups (rev [n \<leftarrow> map fst os. n \<notin> seen]))"
proof (induction os arbitrary: seen)
  case Nil
  then show ?case by simp
next
  case (Cons a os)
  obtain n d where a: "a = (n, d)" by (cases a)
  show ?case
  proof (cases "n \<in> seen")
    case True
    with a Cons.IH [of seen] show ?thesis by simp
  next
    case False
    have f: "[k \<leftarrow> map fst os. k \<notin> insert n seen] = [k \<leftarrow> [k \<leftarrow> map fst os. k \<notin> seen]. k \<noteq> n]"
      by (induction os) auto
    have "rev (remdups (rev (n # [k \<leftarrow> map fst os. k \<notin> seen])))
        = n # rev (remdups (rev [k \<leftarrow> [k \<leftarrow> map fst os. k \<notin> seen]. k \<noteq> n]))"
      by (simp add: remdups_snoc rev_filter remdups_filter)
    with a False Cons.IH [of "insert n seen"] f show ?thesis by simp
  qed
qed

lemma firstOccurrences_default:
  "v \<in> set (firstOccurrences os seen) \<Longrightarrow>
   name v \<notin> seen \<and> map_of os (name v) = Some (defaultValue v)"
proof (induction os arbitrary: seen)
  case Nil
  then show ?case by simp
next
  case (Cons a os)
  obtain n d where a: "a = (n, d)" by (cases a)
  show ?case
  proof (cases "n \<in> seen")
    case True
    with a Cons.prems have "v \<in> set (firstOccurrences os seen)" by simp
    from Cons.IH [OF this] True show ?thesis
      by (auto simp: a)
  next
    case False
    with a Cons.prems consider "v = \<lparr>name = n, defaultValue = d\<rparr>"
      | "v \<in> set (firstOccurrences os (insert n seen))"
      by auto
    then show ?thesis
    proof cases
      case 1
      with False a show ?thesis by simp
    next
      case 2
      from Cons.IH [OF 2] a show ?thesis by auto
    qed
  qed
qed


lemma regexExec_sound:
  "regexExec s = Some (pre, g1, g2, rest) \<Longrightarrow>
   s = pre @ sourceText (Placeholder g1 g2) @ rest"
proof (induction s arbitrary: pre)
  case Nil
  then show ?case by simp
next
  case (Cons c cs)
  show ?case
  proof (cases "matchHere (c # cs)")
    case None
    with Cons.prems obtain pre' where p: "regexExec cs = Some (pre', g1, g2, rest)"
      and pre: "pre = c # pre'"
      by (auto split: option.splits)
    from Cons.IH [OF p] pre show ?thesis by simp
  next
    case (Some m)
    with Cons.prems have m: "matchHere (c # cs) = Some (g1, g2, rest)" and pre: "pre = []"
      by (auto split: prod.splits)
    from matchHere_sound(1) [OF m] pre show ?thesis by simp
  qed
qed

lemma regexExec_intro:
  "matchHere m = Some (g1, g2, rest) \<Longrightarrow>
   (\<And>k. k < length pre \<Longrightarrow> matchHere (drop k (pre @ m)) = None) \<Longrightarrow>
   regexExec (pre @ m) = Some (pre, g1, g2, rest)"
proof (induction pre)
  case Nil
  then show ?case by (cases m) (simp_all add: matchHere_def)
next
  case (Cons c pre)
  from Cons.prems(2) [of 0] have h: "matchHere (c # pre @ m) = None" by simp
  have "\<And>k. k < length pre \<Longrightarrow> matchHere (drop k (pre @ m)) = None"
  proof -
    fix k assume "k < length pre"
    then have "Suc k < length (c # pre)" by simp
    from Cons.prems(2) [OF this] show "matchHere (drop k (pre @ m)) = None" by simp
  qed
  from Cons.IH [OF Cons.prems(1) this] h show ?case by simp
qed

lemma cutsAt_segments: "cutsAt s (segments s)"
proof (induction s rule: segments.induct)
  case (1 s)
  show ?case
  proof (cases "regexExec s")
    case None
    have "\<And>k g1 g2 rest. \<not> placeholderAt (drop k s) g1 g2 rest"
    proof
      fix k g1 g2 rest
      assume p: "placeholderAt (drop k s) g1 g2 rest"
      then have m: "matchHere (drop k s) = Some (g1, g2, rest)"
        by (simp add: placeholderAt_iff_matchHere)
      show False
      proof (cases "k \<le> length s")
        case True
        with None m show False by (simp add: regexExec_None_iff)
      next
        case False
        with m show False by (simp add: matchHere_def)
      qed
    qed
    then have "cutsAt s [Literal s]" by (rule cut_end)
    with None show ?thesis by (simp add: segments_None)
  next
    case (Some x)
    then obtain pre g1 g2 rest where r: "regexExec s = Some (pre, g1, g2, rest)"
      by (cases x) auto
    from regexExec_leftmost [OF r]
    have m: "matchHere (drop (length pre) s) = Some (g1, g2, rest)"
      and n: "\<forall>k < length pre. matchHere (drop k s) = None"
      by blast+
    from regexExec_sound [OF r] have s: "s = pre @ drop (length pre) s"
      by (metis append_eq_conv_conj)
    from m have p: "placeholderAt (drop (length pre) s) g1 g2 rest"
      by (simp add: placeholderAt_iff_matchHere)
    have q: "\<And>k g1' g2' rest'. k < length pre \<Longrightarrow>
        \<not> placeholderAt (drop k (pre @ drop (length pre) s)) g1' g2' rest'"
      using n s by (simp add: placeholderAt_iff_matchHere)
    from "1.IH" [OF r] have c: "cutsAt rest (segments rest)" by simp
    from cut_placeholder [OF p q c]
    have "cutsAt (pre @ drop (length pre) s) (Literal pre # Placeholder g1 g2 # segments rest)" .
    with s r show ?thesis by (simp add: segments_Some)
  qed
qed

lemma cutsAt_unique: "cutsAt s segs \<Longrightarrow> segs = segments s"
proof (induction rule: cutsAt.induct)
  case (cut_end s)
  then have "\<forall>k \<le> length s. matchHere (drop k s) = None"
    by (metis placeholderAt_iff_matchHere not_Some_eq prod_cases3)
  then have "regexExec s = None" by (simp add: regexExec_None_iff)
  then show ?case by (simp add: segments_None)
next
  case (cut_placeholder m g1 g2 rest pre segs)
  from cut_placeholder.hyps(1) have m: "matchHere m = Some (g1, g2, rest)"
    by (simp add: placeholderAt_iff_matchHere)
  have "\<And>k. k < length pre \<Longrightarrow> matchHere (drop k (pre @ m)) = None"
    using cut_placeholder.hyps(2)
    by (metis placeholderAt_iff_matchHere not_Some_eq prod_cases3)
  from regexExec_intro [OF m this]
  have "regexExec (pre @ m) = Some (pre, g1, g2, rest)" .
  with cut_placeholder.IH show ?case by (simp add: segments_Some)
qed

lemma extractVariables_firstOccurrences:
  "extractVariables c = firstOccurrences (occurrences c) {}"
  by (simp add: extractVariables_def extractLoop_firstOccurrences)

text \<open>
  Claim C1. Every content has a cut at its placeholder occurrences. For a content cut
  into \<open>segs\<close>, the placeholders of \<open>segs\<close> read left to right as (trimmed name, trimmed
  default) are the occurrences, and \<open>extractVariables\<close> returns one entry per distinct
  name among them, in the order in which the names first appear
  (\<open>rev (remdups (rev xs))\<close> keeps the first of equal elements of \<open>xs\<close>); the default
  recorded for a name is that of its first occurrence (\<open>map_of\<close> reads the first pair
  with a given key), so a later occurrence of the name adds no entry and changes no
  default. Trimming takes white space off both ends and nothing else.
\<close>

theorem extractVariables_first_occurrences:
  "(\<exists>segs. cutsAt c segs)
   \<and> (\<forall>segs. cutsAt c segs \<longrightarrow>
         map name (extractVariables c)
           = rev (remdups (rev (map fst (concat (map occurrence segs)))))
         \<and> distinct (map name (extractVariables c))
         \<and> set (map name (extractVariables c)) = fst ` set (concat (map occurrence segs))
         \<and> (\<forall>v \<in> set (extractVariables c).
               map_of (concat (map occurrence segs)) (name v) = Some (defaultValue v)))
   \<and> (\<forall>s. (\<exists>l r. s = l @ trim s @ r
                 \<and> (\<forall>c\<in>set l. isWhiteSpace c) \<and> (\<forall>c\<in>set r. isWhiteSpace c))
            \<and> (trim s \<noteq> [] \<longrightarrow>
                  \<not> isWhiteSpace (hd (trim s)) \<and> \<not> isWhiteSpace (last (trim s))))"
proof (intro conjI allI impI)
  show "\<exists>segs. cutsAt c segs"
    using cutsAt_segments [of c] by blast
next
  fix s
  show "\<exists>l r. s = l @ trim s @ r
      \<and> (\<forall>c\<in>set l. isWhiteSpace c) \<and> (\<forall>c\<in>set r. isWhiteSpace c)"
    by (rule trim_decomposition)
next
  fix s
  assume "trim s \<noteq> []"
  then show "\<not> isWhiteSpace (hd (trim s))" and "\<not> isWhiteSpace (last (trim s))"
    using trim_ends [of s] by blast+
next
  fix segs
  assume "cutsAt c segs"
  then have "segs = segments c"
    by (rule cutsAt_unique)
  then have o: "concat (map occurrence segs) = occurrences c"
    by (simp add: occurrences_def)
  show "map name (extractVariables c)
      = rev (remdups (rev (map fst (concat (map occurrence segs)))))"
    by (simp add: o extractVariables_firstOccurrences firstOccurrences_names)
  then show "distinct (map name (extractVariables c))"
    by simp
  show "set (map name (extractVariables c)) = fst ` set (concat (map occurrence segs))"
    by (simp add: o extractVariables_firstOccurrences firstOccurrences_names)
  show "\<forall>v \<in> set (extractVariables c).
      map_of (concat (map occurrence segs)) (name v) = Some (defaultValue v)"
    using firstOccurrences_default [of _ "occurrences c" "{}"]
    by (simp add: o extractVariables_firstOccurrences)
qed

theorem extractVariables_first_occurrences_witness:
  "cutsAt ''Dear {{name}},\<newline>{{ name : x }} {{order:42}}\<newline>''
     [Literal ''Dear '', Placeholder ''name'' None, Literal '',\<newline>'',
      Placeholder '' name '' (Some '' x ''), Literal '' '', Placeholder ''order'' (Some ''42''),
      Literal ''\<newline>'']
   \<and> map name (extractVariables ''Dear {{name}},\<newline>{{ name : x }} {{order:42}}\<newline>'')
       = [''name'', ''order'']
   \<and> map defaultValue (extractVariables ''Dear {{name}},\<newline>{{ name : x }} {{order:42}}\<newline>'')
       = [None, Some ''42'']"
proof -
  let ?c = "''Dear {{name}},\<newline>{{ name : x }} {{order:42}}\<newline>''"
  let ?segs = "[Literal ''Dear '', Placeholder ''name'' None, Literal '',\<newline>'',
      Placeholder '' name '' (Some '' x ''), Literal '' '', Placeholder ''order'' (Some ''42''),
      Literal ''\<newline>'']"
  have "segments ?c = ?segs" by code_simp
  with cutsAt_segments [of ?c] have h: "cutsAt ?c ?segs" by simp
  have o: "concat (map occurrence ?segs)
      = [(''name'', None), (''name'', Some ''x''), (''order'', Some ''42'')]"
    by code_simp
  from extractVariables_first_occurrences [of ?c] h
  have n: "map name (extractVariables ?c) = rev (remdups (rev (map fst (concat (map occurrence ?segs)))))"
    and d: "\<forall>v \<in> set (extractVariables ?c).
               map_of (concat (map occurrence ?segs)) (name v) = Some (defaultValue v)"
    by blast+
  from n have n': "map name (extractVariables ?c) = [''name'', ''order'']"
    by (simp only: o) simp
  then obtain v1 v2 where e: "extractVariables ?c = [v1, v2]"
    and nm: "name v1 = ''name''" "name v2 = ''order''"
    by (auto simp: map_eq_Cons_conv)
  from d have "\<forall>v \<in> set (extractVariables ?c).
      map_of [(''name'', None), (''name'', Some ''x''), (''order'', Some ''42'')] (name v)
        = Some (defaultValue v)"
    by (simp only: o)
  with e nm have "defaultValue v1 = None" "defaultValue v2 = Some ''42''"
    by simp_all
  with e have "map defaultValue (extractVariables ?c) = [None, Some ''42'']"
    by simp
  with h n' show ?thesis by blast
qed

section \<open>The template engine: substitution\<close>





lemma replacer_inherited:
  "values (trim g1) = None \<Longrightarrow> trim g1 \<in> set objectPrototypeMembers \<Longrightarrow>
   replacer values g1 = prototypeMemberText (trim g1)"
  by (simp add: replacer_def getProperty_def)







text \<open>
  A name that the values do not hold and that names a member of \<open>Object.prototype\<close> is
  replaced by the text of the member, not written back.
\<close>

lemma replaceVariables_inherited_member:
  "replaceVariables ''{{toString}}'' Map.empty = ''function toString() { [native code] }''"
  by code_simp

section \<open>Snapshots and the clipboard utility\<close>

lemma take5_of_six:
  "length xs = 5 \<Longrightarrow> take 5 (x # xs) = x # butlast xs"
  by (simp add: butlast_conv_take)

text \<open>
  Claim C4. \<open>createPromptVersion\<close> returns the prompt with the new snapshot of its
  title and content first, the previous versions after it, cut to five entries; a
  prompt that has five versions keeps five, the new one and its four most recent, so the
  oldest is evicted; putting the old versions back gives the prompt again, so no other
  field changes.
\<close>

theorem createPromptVersion_caps_versions:
  "versions (createPromptVersion now1 now2 p) = take 5 (snapshotOf now1 now2 p # versions p)
   \<and> length (versions (createPromptVersion now1 now2 p)) \<le> 5
   \<and> (length (versions p) = 5 \<longrightarrow>
        versions (createPromptVersion now1 now2 p) = snapshotOf now1 now2 p # butlast (versions p)
        \<and> length (versions (createPromptVersion now1 now2 p)) = 5)
   \<and> (createPromptVersion now1 now2 p)\<lparr>versions := versions p\<rparr> = p"
proof -
  have v: "versions (createPromptVersion now1 now2 p) = take 5 (snapshotOf now1 now2 p # versions p)"
    by (simp add: createPromptVersion_def snapshotOf_def Let_def)
  have l: "length (versions (createPromptVersion now1 now2 p)) \<le> 5"
    by (simp add: v)
  have f: "length (versions p) = 5 \<longrightarrow>
        versions (createPromptVersion now1 now2 p) = snapshotOf now1 now2 p # butlast (versions p)
        \<and> length (versions (createPromptVersion now1 now2 p)) = 5"
    by (simp only: v) (simp add: butlast_conv_take)
  have r: "(createPromptVersion now1 now2 p)\<lparr>versions := versions p\<rparr> = p"
    by (simp add: createPromptVersion_def Let_def)
  from v l f r show ?thesis by blast
qed

theorem createPromptVersion_caps_versions_witness:
  "length (versions (examplePrompt\<lparr>versions := map exampleVersion [5, 4, 3, 2, 1]\<rparr>)) = 5
   \<and> versions (createPromptVersion 6 7 (examplePrompt\<lparr>versions := map exampleVersion [5, 4, 3, 2, 1]\<rparr>))
      = snapshotOf 6 7 examplePrompt # map exampleVersion [5, 4, 3, 2]
   \<and> exampleVersion 1 \<notin> set (versions (createPromptVersion 6 7
        (examplePrompt\<lparr>versions := map exampleVersion [5, 4, 3, 2, 1]\<rparr>)))"
proof -
  let ?p = "examplePrompt\<lparr>versions := map exampleVersion [5, 4, 3, 2, 1]\<rparr>"
  have h: "length (versions ?p) = 5" by simp
  from createPromptVersion_caps_versions [of 6 7 ?p] h
  have v: "versions (createPromptVersion 6 7 ?p) = snapshotOf 6 7 ?p # butlast (versions ?p)"
    by blast
  have s: "snapshotOf 6 7 ?p = snapshotOf 6 7 examplePrompt"
    by (simp add: snapshotOf_def)
  have b: "butlast (versions ?p) = map exampleVersion [5, 4, 3, 2]"
    by simp
  have n: "exampleVersion 1 \<notin> set (snapshotOf 6 7 examplePrompt # map exampleVersion [5, 4, 3, 2])"
    by (simp add: exampleVersion_def snapshotOf_def examplePrompt_def)
  from h v s b n show ?thesis by (simp only:) simp
qed

text \<open>
  Claim C10. With the empty string \<open>copyToClipboard\<close> returns false and attempts
  nothing. With any other text it returns true exactly when the async write is there
  and resolves, or the fallback copy reports success; the fallback is tried only when
  the async write is missing or rejects.
\<close>

theorem copyToClipboard_tiers:
  "copyToClipboard b [] = (False, [])
   \<and> (text \<noteq> [] \<longrightarrow>
        (fst (copyToClipboard b text) \<longleftrightarrow>
           (\<exists>w. asyncWriteText b = Some w \<and> w text) \<or> fallbackCopy b text = Returned True)
        \<and> snd (copyToClipboard b text) =
            (case asyncWriteText b of
               None \<Rightarrow> [FallbackCopy text]
             | Some w \<Rightarrow> if w text then [AsyncWrite text] else [AsyncWrite text, FallbackCopy text]))"
  by (auto simp: copyToClipboard_def fallbackTier_def split: option.splits execResult.splits)

theorem copyToClipboard_tiers_witness:
  "''x'' \<noteq> [] \<and> copyToClipboard \<lparr>asyncWriteText = Some (\<lambda>t. False), fallbackCopy = (\<lambda>t. Returned True)\<rparr> ''x''
     = (True, [AsyncWrite ''x'', FallbackCopy ''x''])
   \<and> copyToClipboard \<lparr>asyncWriteText = Some (\<lambda>t. True), fallbackCopy = (\<lambda>t. Returned True)\<rparr> [] = (False, [])"
proof -
  let ?b = "\<lparr>asyncWriteText = Some (\<lambda>t. False), fallbackCopy = (\<lambda>t::string. Returned True)\<rparr>"
  have h: "''x'' \<noteq> []" by simp
  from copyToClipboard_tiers [of ?b "''x''"] h
  have "fst (copyToClipboard ?b ''x'') = True \<and> snd (copyToClipboard ?b ''x'') = [AsyncWrite ''x'', FallbackCopy ''x'']"
    by simp
  then have a: "copyToClipboard ?b ''x'' = (True, [AsyncWrite ''x'', FallbackCopy ''x''])"
    by (simp add: prod_eq_iff)
  from copyToClipboard_tiers [of "\<lparr>asyncWriteText = Some (\<lambda>t. True), fallbackCopy = (\<lambda>t. Returned True)\<rparr>" "''x''"]
  have c: "copyToClipboard \<lparr>asyncWriteText = Some (\<lambda>t. True), fallbackCopy = (\<lambda>t. Returned True)\<rparr> [] = (False, [])"
    by blast
  from h a c show ?thesis by blast
qed

section \<open>The copy workflow\<close>

lemma extractVariables_distinct: "distinct (map name (extractVariables c))"
  by (simp add: extractVariables_firstOccurrences firstOccurrences_names)

lemma strOr_empty: "strOr a [] = (case a of Some d \<Rightarrow> d | None \<Rightarrow> [])"
  by (simp add: strOr_def split: option.splits)

lemma setInitialValue_apply:
  "name v \<noteq> ''__proto__'' \<Longrightarrow>
   setInitialValue m v k = (if k = name v then Some (strOr (defaultValue v) []) else m k)"
  by (simp add: setInitialValue_def setProperty_def)

lemma setInitialValue_other: "k \<noteq> name v \<Longrightarrow> setInitialValue m v k = m k"
  by (simp add: setInitialValue_def setProperty_def)

lemma dom_setInitialValue:
  "name v \<noteq> ''__proto__'' \<Longrightarrow> dom (setInitialValue m v) = insert (name v) (dom m)"
  by (simp add: setInitialValue_def setProperty_def)

lemma foldl_values_other:
  "k \<notin> name ` set vs \<Longrightarrow> foldl setInitialValue m0 vs k = m0 k"
proof (induction vs arbitrary: m0)
  case Nil
  then show ?case by simp
next
  case (Cons a vs)
  then have "k \<notin> name ` set vs" and "k \<noteq> name a" by auto
  from Cons.IH [OF this(1), of "setInitialValue m0 a"] this(2) show ?case
    by (simp add: setInitialValue_other)
qed

lemma foldl_values_dom:
  "''__proto__'' \<notin> name ` set vs \<Longrightarrow>
   dom (foldl setInitialValue m0 vs) = dom m0 \<union> name ` set vs"
proof (induction vs arbitrary: m0)
  case Nil
  then show ?case by simp
next
  case (Cons a vs)
  then have "''__proto__'' \<notin> name ` set vs" and a: "name a \<noteq> ''__proto__''" by auto
  from Cons.IH [OF this(1), of "setInitialValue m0 a"] dom_setInitialValue [OF a, of m0]
  show ?case by auto
qed

lemma foldl_values_entry:
  "distinct (map name vs) \<Longrightarrow> v \<in> set vs \<Longrightarrow> name v \<noteq> ''__proto__'' \<Longrightarrow>
   foldl setInitialValue m0 vs (name v) = Some (strOr (defaultValue v) [])"
proof (induction vs arbitrary: m0)
  case Nil
  then show ?case by simp
next
  case (Cons a vs)
  show ?case
  proof (cases "v = a")
    case True
    with Cons.prems have "name v \<notin> name ` set vs" by auto
    then have "foldl setInitialValue (setInitialValue m0 a) vs (name v)
        = setInitialValue m0 a (name v)"
      by (rule foldl_values_other)
    also have "\<dots> = Some (strOr (defaultValue v) [])"
      using True Cons.prems(3) by (simp add: setInitialValue_apply)
    finally show ?thesis by (simp only: foldl_Cons)
  next
    case False
    with Cons.prems have "distinct (map name vs)" and "v \<in> set vs" by auto
    from Cons.IH [OF this Cons.prems(3)] show ?thesis by simp
  qed
qed

lemma handleCopy_direct:
  assumes "extractVariables (content p) = []"
  shows "handleCopy w p st = App_copyToClipboard w (content p) (prompt_id p) st"
  using assms by (simp add: handleCopy_def)

lemma App_copyToClipboard_effect:
  "clipboardWrites (snd (App_copyToClipboard w t i st)) = clipboardWrites st @ [t]
   \<and> variableModal (snd (App_copyToClipboard w t i st)) = variableModal st
   \<and> variableValues (snd (App_copyToClipboard w t i st)) = variableValues st"
  by (simp add: App_copyToClipboard_def Let_def)

lemma handleCopy_dialog:
  assumes "extractVariables (content p) \<noteq> []"
  shows "handleCopy w p st =
    (None, st\<lparr>variableValues :=
                 foldl setInitialValue Map.empty (extractVariables (content p)),
               variableModal := \<lparr>isOpen = True, modalPrompt = Some p\<rparr>\<rparr>)"
  using assms by (simp add: handleCopy_def Let_def)

lemma handleCopyWithVariables_writes:
  assumes "variableModal st = \<lparr>isOpen = True, modalPrompt = Some p\<rparr>"
  shows "clipboardWrites (snd (handleCopyWithVariables w st))
         = clipboardWrites st @ [replaceVariables (content p) (variableValues st)]"
  using assms
  by (simp add: handleCopyWithVariables_def App_copyToClipboard_def Let_def)

text \<open>
  The copy workflow for a prompt none of whose variables is named \<open>__proto__\<close>. When the content has no variable, \<open>handleCopy\<close> hands the content to the
  clipboard and leaves the dialog and its values alone. When it has one, \<open>handleCopy\<close>
  writes nothing to the clipboard and opens the dialog on the prompt, with a value for
  exactly the variables' names: the default, or the empty string when there is none. On
  completion \<open>handleCopyWithVariables\<close> hands \<open>replaceVariables\<close> of the content and
  the dialog's values to the clipboard. Closing the dialog writes nothing.
\<close>

lemma copy_workflow_other_names:
  "(extractVariables (content p) = [] \<longrightarrow>
      handleCopy w p st = App_copyToClipboard w (content p) (prompt_id p) st
      \<and> clipboardWrites (snd (handleCopy w p st)) = clipboardWrites st @ [content p]
      \<and> variableModal (snd (handleCopy w p st)) = variableModal st
      \<and> variableValues (snd (handleCopy w p st)) = variableValues st)
   \<and> (extractVariables (content p) \<noteq> [] \<longrightarrow>
      fst (handleCopy w p st) = None
      \<and> variableModal (snd (handleCopy w p st)) = \<lparr>isOpen = True, modalPrompt = Some p\<rparr>
      \<and> clipboardWrites (snd (handleCopy w p st)) = clipboardWrites st
      \<and> (''__proto__'' \<notin> name ` set (extractVariables (content p)) \<longrightarrow>
           dom (variableValues (snd (handleCopy w p st))) = name ` set (extractVariables (content p))
           \<and> (\<forall>v \<in> set (extractVariables (content p)).
                 variableValues (snd (handleCopy w p st)) (name v)
                   = Some (case defaultValue v of Some d \<Rightarrow> d | None \<Rightarrow> []))))
   \<and> (variableModal st = \<lparr>isOpen = True, modalPrompt = Some p\<rparr> \<longrightarrow>
      clipboardWrites (snd (handleCopyWithVariables w st))
        = clipboardWrites st @ [replaceVariables (content p) (variableValues st)])
   \<and> clipboardWrites (closeVariableModal st) = clipboardWrites st
   \<and> variableModal (closeVariableModal st) = \<lparr>isOpen = False, modalPrompt = None\<rparr>"
proof -
  have a: "extractVariables (content p) = [] \<longrightarrow>
      handleCopy w p st = App_copyToClipboard w (content p) (prompt_id p) st
      \<and> clipboardWrites (snd (handleCopy w p st)) = clipboardWrites st @ [content p]
      \<and> variableModal (snd (handleCopy w p st)) = variableModal st
      \<and> variableValues (snd (handleCopy w p st)) = variableValues st"
    using App_copyToClipboard_effect [of w "content p" "prompt_id p" st]
    by (simp add: handleCopy_direct)
  have b: "extractVariables (content p) \<noteq> [] \<longrightarrow>
      fst (handleCopy w p st) = None
      \<and> variableModal (snd (handleCopy w p st)) = \<lparr>isOpen = True, modalPrompt = Some p\<rparr>
      \<and> clipboardWrites (snd (handleCopy w p st)) = clipboardWrites st
      \<and> (''__proto__'' \<notin> name ` set (extractVariables (content p)) \<longrightarrow>
           dom (variableValues (snd (handleCopy w p st))) = name ` set (extractVariables (content p))
           \<and> (\<forall>v \<in> set (extractVariables (content p)).
                 variableValues (snd (handleCopy w p st)) (name v)
                   = Some (case defaultValue v of Some d \<Rightarrow> d | None \<Rightarrow> [])))"
  proof
    assume n: "extractVariables (content p) \<noteq> []"
    have e: "''__proto__'' \<notin> name ` set (extractVariables (content p)) \<longrightarrow>
      (\<forall>v \<in> set (extractVariables (content p)).
        foldl setInitialValue Map.empty (extractVariables (content p)) (name v)
        = Some (case defaultValue v of Some d \<Rightarrow> d | None \<Rightarrow> []))"
    proof (intro impI ballI)
      fix v
      assume "''__proto__'' \<notin> name ` set (extractVariables (content p))"
        and v: "v \<in> set (extractVariables (content p))"
      then have "name v \<noteq> ''__proto__''" by force
      from foldl_values_entry [OF extractVariables_distinct v this, of Map.empty]
      show "foldl setInitialValue Map.empty (extractVariables (content p)) (name v)
        = Some (case defaultValue v of Some d \<Rightarrow> d | None \<Rightarrow> [])"
        by (simp add: strOr_empty)
    qed
    have d: "''__proto__'' \<notin> name ` set (extractVariables (content p)) \<longrightarrow>
      dom (foldl setInitialValue Map.empty (extractVariables (content p)))
        = name ` set (extractVariables (content p))"
      by (simp add: foldl_values_dom)
    from e d show "fst (handleCopy w p st) = None
      \<and> variableModal (snd (handleCopy w p st)) = \<lparr>isOpen = True, modalPrompt = Some p\<rparr>
      \<and> clipboardWrites (snd (handleCopy w p st)) = clipboardWrites st
      \<and> (''__proto__'' \<notin> name ` set (extractVariables (content p)) \<longrightarrow>
           dom (variableValues (snd (handleCopy w p st))) = name ` set (extractVariables (content p))
           \<and> (\<forall>v \<in> set (extractVariables (content p)).
                 variableValues (snd (handleCopy w p st)) (name v)
                   = Some (case defaultValue v of Some d \<Rightarrow> d | None \<Rightarrow> [])))"
      by (simp add: handleCopy_dialog [OF n])
  qed
  have c: "variableModal st = \<lparr>isOpen = True, modalPrompt = Some p\<rparr> \<longrightarrow>
      clipboardWrites (snd (handleCopyWithVariables w st))
        = clipboardWrites st @ [replaceVariables (content p) (variableValues st)]"
    by (simp add: handleCopyWithVariables_writes)
  have d: "clipboardWrites (closeVariableModal st) = clipboardWrites st
     \<and> variableModal (closeVariableModal st) = \<lparr>isOpen = False, modalPrompt = None\<rparr>"
    by (simp add: closeVariableModal_def)
  from a b c d show ?thesis by blast
qed

text \<open>
  Claim C3 fails on the code for a variable named \<open>__proto__\<close>. The content
  \<open>{{__proto__}}\<close> has that one variable, with no default. \<open>handleCopy\<close> opens the dialog,
  but the assignment to \<open>initialValues\<close> stores nothing, so the initial values have no
  entry for the variable where the claim has the empty string; and completing the
  dialog as it stands hands \<open>[object Object]\<close> to the clipboard.
\<close>

theorem handleCopy_proto_variable:
  "extractVariables (content protoPrompt) = [\<lparr>name = ''__proto__'', defaultValue = None\<rparr>]
   \<and> variableModal (snd (handleCopy (\<lambda>t. True) protoPrompt initialState))
       = \<lparr>isOpen = True, modalPrompt = Some protoPrompt\<rparr>
   \<and> variableValues (snd (handleCopy (\<lambda>t. True) protoPrompt initialState)) ''__proto__'' = None
   \<and> clipboardWrites (snd (handleCopyWithVariables (\<lambda>t. True)
        (snd (handleCopy (\<lambda>t. True) protoPrompt initialState)))) = [''[object Object]'']"
  by code_simp

section \<open>The storage service, the server route and the connection status\<close>

lemma withDefaults_id: "withDefaults d p = p"
  by (cases d, cases p) (simp add: withDefaults_def)

lemma map_withDefaults: "map (withDefaults d) ps = ps"
  by (induction ps) (simp_all add: withDefaults_id)

lemma find_Some_iff_Bex: "(find P xs \<noteq> None) \<longleftrightarrow> (\<exists>x \<in> set xs. P x)"
  by (induction xs) auto

lemma findIndex_upsert:
  "(case findIndex (\<lambda>q. prompt_id q = prompt_id saved) cached of
      Some index \<Rightarrow> cached[index := saved]
    | None \<Rightarrow> cached @ [saved]) = upsert saved cached"
  by (induction cached) (auto split: option.splits)

lemma upsert_absent:
  "prompt_id saved \<notin> prompt_id ` set cached \<Longrightarrow> upsert saved cached = cached @ [saved]"
  by (induction cached) auto

lemma upsert_present:
  "prompt_id saved \<in> prompt_id ` set cached \<Longrightarrow>
   length (upsert saved cached) = length cached \<and> saved \<in> set (upsert saved cached)"
  by (induction cached) auto

lemma upsert_ids:
  "prompt_id ` set (upsert saved cached) = insert (prompt_id saved) (prompt_id ` set cached)"
  by (induction cached) auto

text \<open>
  Claim C5, as amended. When the fetch succeeds, \<open>loadPromptsAsync\<close> returns the
  fetched set and overwrites the cached prompts with it, unless the storage write
  raises: then the write is dropped and the storage is as before. When the fetch fails,
  it does not raise: it returns the set that \<open>getCachedPrompts\<close> reads, and the storage
  is unchanged.
\<close>

theorem loadPromptsAsync_cache_policy:
  "(fetchPrompts api = Inr ps \<longrightarrow>
      fst (loadPromptsAsync d api ls) = Inr ps
      \<and> snd (loadPromptsAsync d api ls)
          = (if setItemThrows ls then ls else ls\<lparr>promptsItem := Parsed ps\<rparr>))
   \<and> (fetchPrompts api = Inl e \<longrightarrow>
      loadPromptsAsync d api ls = (Inr (getCachedPrompts ls), ls))"
  by (simp add: loadPromptsAsync_def map_withDefaults setCachedPrompts_def)

theorem loadPromptsAsync_cache_policy_witness:
  "fst (loadPromptsAsync plainPrompt (serving [plainPrompt]) cachedStorage) = Inr [plainPrompt]
   \<and> getCachedPrompts (snd (loadPromptsAsync plainPrompt (serving [plainPrompt]) cachedStorage))
       = [plainPrompt]
   \<and> loadPromptsAsync plainPrompt unreachable cachedStorage = (Inr [examplePrompt], cachedStorage)"
proof -
  have f: "fetchPrompts (serving [plainPrompt]) = Inr [plainPrompt]"
    by (simp add: serving_def)
  have u: "fetchPrompts unreachable = Inl NetworkError"
    by (simp add: unreachable_def)
  from loadPromptsAsync_cache_policy [of "serving [plainPrompt]" "[plainPrompt]" plainPrompt cachedStorage] f
  have a: "fst (loadPromptsAsync plainPrompt (serving [plainPrompt]) cachedStorage) = Inr [plainPrompt]"
    and b: "snd (loadPromptsAsync plainPrompt (serving [plainPrompt]) cachedStorage)
          = (if setItemThrows cachedStorage then cachedStorage
             else cachedStorage\<lparr>promptsItem := Parsed [plainPrompt]\<rparr>)"
    by blast+
  from b have c: "getCachedPrompts (snd (loadPromptsAsync plainPrompt (serving [plainPrompt]) cachedStorage))
       = [plainPrompt]"
    by (simp add: cachedStorage_def getCachedPrompts_def)
  from loadPromptsAsync_cache_policy [of unreachable _ plainPrompt cachedStorage NetworkError] u
  have "loadPromptsAsync plainPrompt unreachable cachedStorage
        = (Inr (getCachedPrompts cachedStorage), cachedStorage)"
    by blast
  then have e: "loadPromptsAsync plainPrompt unreachable cachedStorage = (Inr [examplePrompt], cachedStorage)"
    by (simp add: cachedStorage_def getCachedPrompts_def)
  from a c e show ?thesis by blast
qed

text \<open>
  Claim C5 as stated has the cache overwritten whenever the fetch succeeds. With a
  store whose writes raise, the fetch succeeds, the fetched set is returned, and the
  cache still reads as empty.
\<close>

theorem loadPromptsAsync_write_dropped_counterexample:
  "fetchPrompts (serving [examplePrompt]) = Inr [examplePrompt]
   \<and> fst (loadPromptsAsync plainPrompt (serving [examplePrompt]) fullStorage) = Inr [examplePrompt]
   \<and> getCachedPrompts (snd (loadPromptsAsync plainPrompt (serving [examplePrompt]) fullStorage)) = []
   \<and> getCachedPrompts (snd (loadPromptsAsync plainPrompt (serving [examplePrompt]) fullStorage))
       \<noteq> [examplePrompt]"
  by (simp add: loadPromptsAsync_def serving_def fullStorage_def setCachedPrompts_def
      getCachedPrompts_def withDefaults_id)

lemma savePromptAsync_eq:
  "savePromptAsync api p ls =
     (case remoteSave api p ls of
        Inl err \<Rightarrow> (Inl err, ls)
      | Inr saved \<Rightarrow> (Inr saved, setCachedPrompts (upsert saved (getCachedPrompts ls)) ls))"
proof (cases "find (\<lambda>q. prompt_id q = prompt_id p) (getCachedPrompts ls)")
  case None
  then have "\<not> (\<exists>q \<in> set (getCachedPrompts ls). prompt_id q = prompt_id p)"
    using find_Some_iff_Bex [of "\<lambda>q. prompt_id q = prompt_id p" "getCachedPrompts ls"] by simp
  with None show ?thesis
    by (simp add: savePromptAsync_def remoteSave_def Let_def findIndex_upsert split: sum.splits)
next
  case (Some x)
  then have "\<exists>q \<in> set (getCachedPrompts ls). prompt_id q = prompt_id p"
    using find_Some_iff_Bex [of "\<lambda>q. prompt_id q = prompt_id p" "getCachedPrompts ls"] by simp
  with Some show ?thesis
    by (simp add: savePromptAsync_def remoteSave_def Let_def findIndex_upsert split: sum.splits)
qed

text \<open>
  Claim C6, as amended. A failure of the remote request is returned to the caller as
  the error, with the storage as it was. On success \<open>savePromptAsync\<close> returns the
  entity the server sent and writes the cache with that entity upserted by id, and
  \<open>deletePromptAsync\<close> writes the cache without the entries of that id; when the
  storage write raises, it is dropped, the storage is as before, and the call still
  succeeds. The upsert appends when the id is absent and replaces in place when it is
  present.
\<close>

theorem save_delete_cache_policy:
  "(remoteSave api p ls = Inl e \<longrightarrow> savePromptAsync api p ls = (Inl e, ls))
   \<and> (remoteSave api p ls = Inr saved \<longrightarrow>
        fst (savePromptAsync api p ls) = Inr saved
        \<and> snd (savePromptAsync api p ls)
            = (if setItemThrows ls then ls
               else ls\<lparr>promptsItem := Parsed (upsert saved (getCachedPrompts ls))\<rparr>))
   \<and> (deletePromptApi api i = Inl e \<longrightarrow> deletePromptAsync api i ls = (Inl e, ls))
   \<and> (deletePromptApi api i = Inr () \<longrightarrow>
        fst (deletePromptAsync api i ls) = Inr ()
        \<and> snd (deletePromptAsync api i ls)
            = (if setItemThrows ls then ls
               else ls\<lparr>promptsItem := Parsed (filter (\<lambda>q. prompt_id q \<noteq> i) (getCachedPrompts ls))\<rparr>))
   \<and> (prompt_id saved \<notin> prompt_id ` set cached \<longrightarrow> upsert saved cached = cached @ [saved])
   \<and> (prompt_id saved \<in> prompt_id ` set cached \<longrightarrow>
        length (upsert saved cached) = length cached \<and> saved \<in> set (upsert saved cached))"
proof -
  have a: "remoteSave api p ls = Inl e \<longrightarrow> savePromptAsync api p ls = (Inl e, ls)"
    by (simp add: savePromptAsync_eq)
  have b: "remoteSave api p ls = Inr saved \<longrightarrow>
        fst (savePromptAsync api p ls) = Inr saved
        \<and> snd (savePromptAsync api p ls)
            = (if setItemThrows ls then ls
               else ls\<lparr>promptsItem := Parsed (upsert saved (getCachedPrompts ls))\<rparr>)"
    by (simp add: savePromptAsync_eq setCachedPrompts_def)
  have c: "deletePromptApi api i = Inl e \<longrightarrow> deletePromptAsync api i ls = (Inl e, ls)"
    by (simp add: deletePromptAsync_def)
  have d: "deletePromptApi api i = Inr () \<longrightarrow>
        fst (deletePromptAsync api i ls) = Inr ()
        \<and> snd (deletePromptAsync api i ls)
            = (if setItemThrows ls then ls
               else ls\<lparr>promptsItem := Parsed (filter (\<lambda>q. prompt_id q \<noteq> i) (getCachedPrompts ls))\<rparr>)"
    by (simp add: deletePromptAsync_def setCachedPrompts_def)
  from a b c d upsert_absent [of saved cached] upsert_present [of saved cached]
  show ?thesis by blast
qed

theorem save_delete_cache_policy_witness:
  "savePromptAsync unreachable plainPrompt cachedStorage = (Inl NetworkError, cachedStorage)
   \<and> fst (savePromptAsync (serving []) plainPrompt cachedStorage) = Inr plainPrompt
   \<and> getCachedPrompts (snd (savePromptAsync (serving []) plainPrompt cachedStorage))
       = [examplePrompt, plainPrompt]
   \<and> deletePromptAsync unreachable ''p1'' cachedStorage = (Inl NetworkError, cachedStorage)
   \<and> getCachedPrompts (snd (deletePromptAsync (serving []) ''p1'' cachedStorage)) = []"
proof -
  have ids: "prompt_id examplePrompt = ''p1''" "prompt_id plainPrompt = ''p2''"
    by (simp_all add: examplePrompt_def plainPrompt_def)
  have g: "getCachedPrompts cachedStorage = [examplePrompt]"
    and w: "\<not> setItemThrows cachedStorage"
    by (simp_all add: cachedStorage_def getCachedPrompts_def)
  have r1: "remoteSave unreachable plainPrompt cachedStorage = Inl NetworkError"
    by (simp add: remoteSave_def unreachable_def)
  have r2: "remoteSave (serving []) plainPrompt cachedStorage = Inr plainPrompt"
    by (simp add: remoteSave_def serving_def g ids)
  have d1: "deletePromptApi unreachable ''p1'' = Inl NetworkError"
    by (simp add: unreachable_def)
  have d2: "deletePromptApi (serving []) ''p1'' = Inr ()"
    by (simp add: serving_def)
  note t1 = save_delete_cache_policy
    [where api = unreachable and p = plainPrompt and ls = cachedStorage and e = NetworkError
       and i = "''p1''"]
  note t2 = save_delete_cache_policy
    [where api = "serving []" and p = plainPrompt and ls = cachedStorage and saved = plainPrompt
       and i = "''p1''"]
  from t1 r1 d1 have a: "savePromptAsync unreachable plainPrompt cachedStorage = (Inl NetworkError, cachedStorage)"
    and b: "deletePromptAsync unreachable ''p1'' cachedStorage = (Inl NetworkError, cachedStorage)"
    by blast+
  from t2 r2 d2 have c: "fst (savePromptAsync (serving []) plainPrompt cachedStorage) = Inr plainPrompt"
    and s: "snd (savePromptAsync (serving []) plainPrompt cachedStorage)
            = (if setItemThrows cachedStorage then cachedStorage
               else cachedStorage\<lparr>promptsItem := Parsed (upsert plainPrompt (getCachedPrompts cachedStorage))\<rparr>)"
    and x: "snd (deletePromptAsync (serving []) ''p1'' cachedStorage)
            = (if setItemThrows cachedStorage then cachedStorage
               else cachedStorage\<lparr>promptsItem :=
                   Parsed (filter (\<lambda>q. prompt_id q \<noteq> ''p1'') (getCachedPrompts cachedStorage))\<rparr>)"
    by blast+
  from s w g ids have s': "getCachedPrompts (snd (savePromptAsync (serving []) plainPrompt cachedStorage))
       = [examplePrompt, plainPrompt]"
    by (simp add: getCachedPrompts_def cachedStorage_def)
  from x w g ids have x': "getCachedPrompts (snd (deletePromptAsync (serving []) ''p1'' cachedStorage)) = []"
    by (simp add: getCachedPrompts_def cachedStorage_def)
  from a c s' b x' show ?thesis by blast
qed

text \<open>
  Claim C6 as stated has the server's entity in the cache after every successful save.
  With a store whose writes raise, the create succeeds and is returned, and the cache
  does not hold the entity.
\<close>

theorem savePromptAsync_write_dropped_counterexample:
  "remoteSave (serving []) examplePrompt fullStorage = Inr examplePrompt
   \<and> fst (savePromptAsync (serving []) examplePrompt fullStorage) = Inr examplePrompt
   \<and> getCachedPrompts (snd (savePromptAsync (serving []) examplePrompt fullStorage)) = []
   \<and> examplePrompt \<notin> set (getCachedPrompts (snd (savePromptAsync (serving []) examplePrompt fullStorage)))"
  by (simp add: savePromptAsync_eq remoteSave_def serving_def fullStorage_def
      setCachedPrompts_def getCachedPrompts_def)

text \<open>
  Claim C8, as amended. \<open>exportData\<close> returns the envelope with version 2, the current
  time as \<open>exportedAt\<close>, and the prompts and folders it is passed as arguments; it reads
  neither the cache nor the remote store.
\<close>

theorem exportData_envelope:
  "exportData now ps fs = \<lparr>version = 2, exportedAt = now, prompts = ps, folders = fs\<rparr>
   \<and> version (exportData now ps fs) = 2
   \<and> exportedAt (exportData now ps fs) = now
   \<and> prompts (exportData now ps fs) = ps
   \<and> folders (exportData now ps fs) = fs"
  by (simp add: exportData_def CURRENT_VERSION_def)

theorem exportData_envelope_witness:
  "version (exportData 1700000000000 [plainPrompt] []) = 2
   \<and> prompts (exportData 1700000000000 [plainPrompt] []) = [plainPrompt]"
  using exportData_envelope [of 1700000000000 "[plainPrompt]" "[]"] by blast

text \<open>
  Claim C8 as stated has \<open>exportData\<close> read the cache. With one prompt in the cache
  and empty arguments, the exported prompts are the arguments, not the cache.
\<close>

theorem exportData_ignores_cache_counterexample:
  "getCachedPrompts cachedStorage = [examplePrompt]
   \<and> prompts (exportData 0 [] []) = []
   \<and> prompts (exportData 0 [] []) \<noteq> getCachedPrompts cachedStorage"
  by (simp add: exportData_def cachedStorage_def getCachedPrompts_def)

lemma toString_nonempty: "toString n \<noteq> []"
  by (subst toString.simps) simp

lemma strOr_None: "strOr None d = d"
  by (simp add: strOr_def)

lemma strOr_nonempty: "d \<noteq> [] \<Longrightarrow> strOr a d \<noteq> []"
  by (simp add: strOr_def split: option.splits)

text \<open>
  Claim C9, as amended. Whatever the body, the route builds a prompt whose title and id
  are not empty and in which every missing field has its default, and hands it to the
  database; it answers 201 with the prompt the database returns, and 500 when the
  database raises. No other status is sent, so a missing field is never the reason for
  a rejection.
\<close>

theorem postPrompts_defaults:
  "(db (newPrompt now body) = Inr created \<longrightarrow> postPrompts db now body = (201, PromptJson created))
   \<and> (db (newPrompt now body) = Inl e \<longrightarrow>
        postPrompts db now body = (500, ErrorJson ''Failed to create prompt''))
   \<and> fst (postPrompts db now body) \<in> {201, 500}
   \<and> title (newPrompt now body) \<noteq> []
   \<and> prompt_id (newPrompt now body) \<noteq> []
   \<and> (body_id body = None \<longrightarrow> prompt_id (newPrompt now body) = toString now)
   \<and> (body_title body = None \<longrightarrow> title (newPrompt now body) = ''New Prompt'')
   \<and> (body_content body = None \<longrightarrow> content (newPrompt now body) = [])
   \<and> (body_tags body = None \<longrightarrow> tags (newPrompt now body) = [])
   \<and> (body_isFavorite body = None \<longrightarrow> isFavorite (newPrompt now body) = False)
   \<and> (body_isPinned body = None \<longrightarrow> isPinned (newPrompt now body) = False)
   \<and> (body_folderId body = None \<longrightarrow> folderId (newPrompt now body) = None)
   \<and> (body_createdAt body = None \<longrightarrow> createdAt (newPrompt now body) = now)
   \<and> (body_updatedAt body = None \<longrightarrow> updatedAt (newPrompt now body) = now)
   \<and> (body_versions body = None \<longrightarrow> versions (newPrompt now body) = [])"
proof -
  have r: "(db (newPrompt now body) = Inr created \<longrightarrow> postPrompts db now body = (201, PromptJson created))
   \<and> (db (newPrompt now body) = Inl e \<longrightarrow>
        postPrompts db now body = (500, ErrorJson ''Failed to create prompt''))
   \<and> fst (postPrompts db now body) \<in> {201, 500}"
    by (simp add: postPrompts_def split: sum.splits)
  have t: "title (newPrompt now body) \<noteq> []"
    by (simp add: newPrompt_def strOr_nonempty)
  have i: "prompt_id (newPrompt now body) \<noteq> []"
    by (simp add: newPrompt_def strOr_nonempty toString_nonempty)
  have d: "(body_id body = None \<longrightarrow> prompt_id (newPrompt now body) = toString now)
   \<and> (body_title body = None \<longrightarrow> title (newPrompt now body) = ''New Prompt'')
   \<and> (body_content body = None \<longrightarrow> content (newPrompt now body) = [])
   \<and> (body_tags body = None \<longrightarrow> tags (newPrompt now body) = [])
   \<and> (body_isFavorite body = None \<longrightarrow> isFavorite (newPrompt now body) = False)
   \<and> (body_isPinned body = None \<longrightarrow> isPinned (newPrompt now body) = False)
   \<and> (body_folderId body = None \<longrightarrow> folderId (newPrompt now body) = None)
   \<and> (body_createdAt body = None \<longrightarrow> createdAt (newPrompt now body) = now)
   \<and> (body_updatedAt body = None \<longrightarrow> updatedAt (newPrompt now body) = now)
   \<and> (body_versions body = None \<longrightarrow> versions (newPrompt now body) = [])"
    by (simp add: newPrompt_def strOr_def boolOr_def numOr_def arrayOr_def strOrNull_def)
  from r t i d show ?thesis by blast
qed

theorem postPrompts_defaults_witness:
  "postPrompts (uniqueStore [examplePrompt]) 5 emptyBody =
     (201, PromptJson \<lparr>prompt_id = ''5'', title = ''New Prompt'', content = [], tags = [],
        isFavorite = False, isPinned = False, folderId = None, createdAt = 5, updatedAt = 5,
        versions = []\<rparr>)"
proof -
  have n: "newPrompt 5 emptyBody = \<lparr>prompt_id = ''5'', title = ''New Prompt'', content = [], tags = [],
        isFavorite = False, isPinned = False, folderId = None, createdAt = 5, updatedAt = 5,
        versions = []\<rparr>"
    by code_simp
  have "uniqueStore [examplePrompt] (newPrompt 5 emptyBody) = Inr (newPrompt 5 emptyBody)"
    by (simp add: n uniqueStore_def examplePrompt_def)
  with postPrompts_defaults [of "uniqueStore [examplePrompt]" 5 emptyBody "newPrompt 5 emptyBody"]
  have "postPrompts (uniqueStore [examplePrompt]) 5 emptyBody = (201, PromptJson (newPrompt 5 emptyBody))"
    by blast
  with n show ?thesis by simp
qed

text \<open>
  Claim C9 as stated has every request body answered with 201. A body that gives only
  the id of a stored prompt is answered with 500 by a database that keeps ids unique.
\<close>

theorem postPrompts_database_failure_counterexample:
  "postPrompts (uniqueStore [examplePrompt]) 5 (emptyBody\<lparr>body_id := Some ''p1''\<rparr>)
     = (500, ErrorJson ''Failed to create prompt'')
   \<and> fst (postPrompts (uniqueStore [examplePrompt]) 5 (emptyBody\<lparr>body_id := Some ''p1''\<rparr>)) \<noteq> 201"
  by (simp add: postPrompts_def uniqueStore_def newPrompt_def emptyBody_def examplePrompt_def
      strOr_def)

text \<open>
  The bubble's \<open>ApiClient\<close> calls a new listener with the current status, and a
  change of status calls every listener, in both clients.
\<close>

lemma ApiClient_onConnectionStatusChange_replays:
  "calls (ApiClient_onConnectionStatusChange l m) = calls m @ [(l, connectionStatus m)]
   \<and> connectionListeners (ApiClient_onConnectionStatusChange l m) = connectionListeners m @ [l]"
  by (simp add: ApiClient_onConnectionStatusChange_def)

lemma setConnectionStatus_broadcasts:
  "connectionStatus m \<noteq> s \<Longrightarrow>
   calls (setConnectionStatus s m) = calls m @ map (\<lambda>l. (l, s)) (connectionListeners m)
   \<and> connectionStatus (setConnectionStatus s m) = s"
  by (simp add: setConnectionStatus_def)

lemma apiService_onConnectionStatusChange_silent:
  "calls (apiService_onConnectionStatusChange l m) = calls m"
  by (simp add: apiService_onConnectionStatusChange_def)

text \<open>
  Claim C7 fails on the web client: registering a listener with \<open>apiService\<close> calls
  nothing, where the same registration with the bubble's \<open>ApiClient\<close> calls the
  listener with the current status.
\<close>

theorem apiService_onConnectionStatusChange_no_replay:
  "calls (apiService_onConnectionStatusChange 1 freshMonitor) = []
   \<and> calls (ApiClient_onConnectionStatusChange 1 freshMonitor) = [(1, Checking)]"
  by (simp add: apiService_onConnectionStatusChange_def ApiClient_onConnectionStatusChange_def
      freshMonitor_def)

end
